theory Spec2Isabelle
  imports Main
begin

section \<open>The real-time layer of src/server.js\<close>

text \<open>
  The theory embeds the socket layer of \<^verbatim>\<open>src/server.js\<close> (lines 34 to 93): the
  handshake middleware, the \<^verbatim>\<open>join_channel\<close>, \<^verbatim>\<open>send_message\<close> and \<^verbatim>\<open>disconnect\<close>
  handlers, together with the tables of \<^verbatim>\<open>src/config/supabase.js\<close> they read and write.

  The server is one JavaScript process. A handler runs without interruption up to its next
  \<^verbatim>\<open>await\<close>; there it is suspended and other handlers may run. The \<^verbatim>\<open>send_message\<close>
  handler has two such points (\<^verbatim>\<open>Messages.create\<close> and \<^verbatim>\<open>Messages.findByPk\<close>), so it is
  modelled as three pieces, and a suspended handler is a value of type \<open>task\<close> kept in the
  state until the store answers. A write takes effect at the moment its call settles. The
  middleware awaits too, but nothing it reads is changed by the socket layer, so a
  handshake is one step.

  The HTTP routes of \<^verbatim>\<open>server.js\<close> are not part of the model: the Users and Channels
  tables are those the process starts with, and the Messages table grows only through
  \<^verbatim>\<open>send_message\<close>. Logging is left out.
\<close>

subsection \<open>Values sent by clients\<close>

text \<open>
  A field of a client payload is absent, \<^verbatim>\<open>null\<close> or a string. The argument of
  \<^verbatim>\<open>send_message\<close> is an object (a list of fields) or is itself absent; \<open>get_prop\<close> reads a
  field the way destructuring does, giving \<^verbatim>\<open>undefined\<close> for a field that is not there.
  The string a client sends as \<^verbatim>\<open>channelId\<close> is used twice, as it is: socket.io names
  the room by it, and the store reads it as the key of a channel.
\<close>

datatype jsval = Undefined | Null | Str string

type_synonym payload = "(string \<times> jsval) list"

definition get_prop :: "payload \<Rightarrow> string \<Rightarrow> jsval" where
  "get_prop d k = (case map_of d k of None \<Rightarrow> Undefined | Some v \<Rightarrow> v)"

subsection \<open>Tables (src/config/supabase.js)\<close>

text \<open>
  The primary keys are all called \<^verbatim>\<open>id\<close> in the source; here they are \<open>uid\<close> (Users),
  \<open>cid\<close> (Channels) and \<open>mid\<close> (Messages). The three user records are the three attribute
  lists the source asks for: \<^verbatim>\<open>['id', 'username', 'avatar_color']\<close> in the middleware,
  the same with \<^verbatim>\<open>'status'\<close> for a message's sender, and the whole row.
\<close>

record identity =
  uid :: string
  username :: string
  avatar_color :: string

record profile = identity +
  status :: string

record user_row = profile +
  email :: string
  password :: string

record channel =
  cid :: string
  name :: string
  is_private :: bool
  created_by :: string

record message =
  mid :: string
  content :: string
  created_at :: nat
  user_id :: "string option"
  channel_id :: "string option"

record message_with_sender = message +
  sender :: "profile option"

subsection \<open>The state of the process\<close>

type_synonym socket_id = nat

datatype out_event =
    Receive_message "message_with_sender option"
  | Error string

text \<open>
  A suspended \<^verbatim>\<open>send_message\<close> handler: waiting for \<^verbatim>\<open>Messages.create\<close> (it holds the
  socket, \<^verbatim>\<open>channelId\<close>, \<^verbatim>\<open>content\<close> and the value of \<^verbatim>\<open>socket.user.id\<close> read when the
  call was made), or waiting for \<^verbatim>\<open>Messages.findByPk\<close> (it holds the socket,
  \<^verbatim>\<open>channelId\<close> and \<^verbatim>\<open>newMessage.id\<close>).
\<close>

datatype task =
    Awaiting_create socket_id jsval jsval string
  | Awaiting_findByPk socket_id jsval string

text \<open>
  \<open>sockets\<close> holds \<^verbatim>\<open>socket.user\<close> of every open connection. \<open>rooms\<close> is the room
  table of socket.io: a room is a JavaScript \<^verbatim>\<open>Set\<close> of socket ids, here a list in
  insertion order. \<open>emitted\<close> is the sequence of events the server has sent, each with the
  socket it was sent to, whether or not that socket is still open. \<open>pending\<close> holds the
  suspended handlers, numbered in the order they were started. \<open>unhandled\<close> counts
  promise rejections nobody catches (what Node.js then does with the process is not
  modelled).
\<close>

record state =
  Users :: "user_row list"
  Channels :: "channel list"
  Messages :: "message list"
  sockets :: "socket_id \<Rightarrow> identity option"
  rooms :: "jsval \<Rightarrow> socket_id list"
  pending :: "nat \<Rightarrow> task option"
  next_task :: nat
  emitted :: "(socket_id \<times> out_event) list"
  unhandled :: nat

subsection \<open>The store\<close>

text \<open>
  A call to the store either rejects or resolves. Whether the database can be reached
  (\<open>up\<close>), the UUID that Sequelize draws for a new row and the clock are inputs from
  outside the program. The rules a write is checked against are those of the schema:
  \<^verbatim>\<open>content\<close> has \<^verbatim>\<open>allowNull: false\<close> and nothing else; \<^verbatim>\<open>id\<close> is the primary key;
  \<^verbatim>\<open>channel_id\<close> and \<^verbatim>\<open>user_id\<close> are foreign keys added by the associations, and a
  foreign key may be null.

  The id columns have the type \<^verbatim>\<open>UUID\<close> and \<^verbatim>\<open>content\<close> the type \<^verbatim>\<open>TEXT\<close>. How the
  database reads a string it is given for such a column is not written in the repository,
  so it is a parameter: \<open>uuid_in\<close> gives the value of a string as a uuid (\<open>None\<close> when
  it is not one; two spellings of the same id have the same value, and the tables hold
  values), and \<open>text_in\<close> gives the text that is kept (\<open>None\<close> when the database
  refuses the string). The id of a new row and \<^verbatim>\<open>socket.user.id\<close> are values already:
  the first is drawn by Sequelize, the second was read from the Users table.
\<close>

record store =
  uuid_in :: "string \<Rightarrow> string option"
  text_in :: "string \<Rightarrow> string option"

datatype db_error =
    ValidationError
  | ConnectionError
  | DatabaseError
  | UniqueConstraintError
  | ForeignKeyConstraintError

definition Users_findByPk :: "bool \<Rightarrow> state \<Rightarrow> string \<Rightarrow> db_error + user_row option" where
  "Users_findByPk up st pk =
     (if \<not> up then Inl ConnectionError
      else Inr (find (\<lambda>u. uid u = pk) (Users st)))"

fun foreign_key :: "store \<Rightarrow> jsval \<Rightarrow> db_error + string option" where
  "foreign_key db (Str k) =
     (case uuid_in db k of None \<Rightarrow> Inl DatabaseError | Some v \<Rightarrow> Inr (Some v))"
| "foreign_key db Null = Inr None"
| "foreign_key db Undefined = Inr None"

definition references :: "string option \<Rightarrow> string list \<Rightarrow> bool" where
  "references fk keys = (case fk of None \<Rightarrow> True | Some k \<Rightarrow> k \<in> set keys)"

definition Messages_create ::
  "store \<Rightarrow> bool \<Rightarrow> string \<Rightarrow> nat \<Rightarrow> state \<Rightarrow> jsval \<Rightarrow> jsval \<Rightarrow> string
     \<Rightarrow> db_error + message \<times> state" where
  "Messages_create db up new_id now st content_v channel_v user_v =
     (case content_v of
        Undefined \<Rightarrow> Inl ValidationError
      | Null \<Rightarrow> Inl ValidationError
      | Str text \<Rightarrow>
          if \<not> up then Inl ConnectionError
          else
            (case text_in db text of
               None \<Rightarrow> Inl DatabaseError
             | Some kept \<Rightarrow>
                 (case foreign_key db channel_v of
                    Inl err \<Rightarrow> Inl err
                  | Inr channel \<Rightarrow>
                      if new_id \<in> set (map mid (Messages st)) then Inl UniqueConstraintError
                      else if \<not> references channel (map cid (Channels st))
                        then Inl ForeignKeyConstraintError
                      else if \<not> references (Some user_v) (map uid (Users st))
                        then Inl ForeignKeyConstraintError
                      else
                        Inr (\<lparr>mid = new_id, content = kept, created_at = now,
                               user_id = Some user_v, channel_id = channel\<rparr>,
                             st\<lparr>Messages := Messages st @
                                [\<lparr>mid = new_id, content = kept, created_at = now,
                                  user_id = Some user_v, channel_id = channel\<rparr>]\<rparr>))))"

definition sender_of :: "state \<Rightarrow> message \<Rightarrow> profile option" where
  "sender_of st m =
     (case user_id m of
        None \<Rightarrow> None
      | Some k \<Rightarrow>
          map_option
            (\<lambda>u. \<lparr>uid = uid u, username = username u, avatar_color = avatar_color u,
                  status = status u\<rparr>)
            (find (\<lambda>u. uid u = k) (Users st)))"

definition include_sender :: "state \<Rightarrow> message \<Rightarrow> message_with_sender" where
  "include_sender st m =
     \<lparr>mid = mid m, content = content m, created_at = created_at m,
      user_id = user_id m, channel_id = channel_id m, sender = sender_of st m\<rparr>"

definition Messages_findByPk ::
  "bool \<Rightarrow> state \<Rightarrow> string \<Rightarrow> db_error + message_with_sender option" where
  "Messages_findByPk up st pk =
     (if \<not> up then Inl ConnectionError
      else Inr (map_option (include_sender st) (find (\<lambda>m. mid m = pk) (Messages st))))"

subsection \<open>Sending events (socket.io)\<close>

text \<open>
  \<^verbatim>\<open>socket.emit\<close> sends one event to one socket. \<^verbatim>\<open>io.to(room).emit\<close> sends the event
  to every socket that is in the room at that moment, once each. \<^verbatim>\<open>socket.join\<close> adds
  the socket to the room, which is a set: a socket already in it is not added again.
  When a connection closes, socket.io takes the socket out of every room before it calls
  the \<^verbatim>\<open>disconnect\<close> handler. (The room socket.io gives every socket under its own id is
  left out: no channel id of the store is a socket id.)
\<close>

definition socket_emit :: "state \<Rightarrow> socket_id \<Rightarrow> out_event \<Rightarrow> state" where
  "socket_emit st sid ev = st\<lparr>emitted := emitted st @ [(sid, ev)]\<rparr>"

definition io_to_emit :: "state \<Rightarrow> jsval \<Rightarrow> out_event \<Rightarrow> state" where
  "io_to_emit st room ev = st\<lparr>emitted := emitted st @ map (\<lambda>r. (r, ev)) (rooms st room)\<rparr>"

definition socket_join :: "state \<Rightarrow> socket_id \<Rightarrow> jsval \<Rightarrow> state" where
  "socket_join st sid room =
     (if sid \<in> set (rooms st room) then st
      else st\<lparr>rooms := (rooms st)(room := rooms st room @ [sid])\<rparr>)"

definition leaveAll :: "state \<Rightarrow> socket_id \<Rightarrow> state" where
  "leaveAll st sid = st\<lparr>rooms := (\<lambda>room. removeAll sid (rooms st room))\<rparr>"

subsection \<open>The handshake middleware (server.js, lines 34 to 50)\<close>

text \<open>
  \<open>verify\<close> stands for \<^verbatim>\<open>jwt.verify(token, JWT_SECRET)\<close> followed by reading \<^verbatim>\<open>.id\<close>:
  \<open>None\<close> when it throws (a malformed, forged or expired token). The id in a token
  that verifies is one the server signed at signup or login, the key of a row as the
  Users table gave it. The result is the message of the error handed to \<^verbatim>\<open>next\<close>, or
  the user attached to the socket.
\<close>

definition auth_middleware ::
  "(string \<Rightarrow> string option) \<Rightarrow> bool \<Rightarrow> state \<Rightarrow> string option \<Rightarrow> string + identity" where
  "auth_middleware verify up st token =
     (case token of
        None \<Rightarrow> Inl ''Authentication error''
      | Some tk \<Rightarrow>
          if tk = [] then Inl ''Authentication error''
          else
            (case verify tk of
               None \<Rightarrow> Inl ''Authentication error''
             | Some decoded_id \<Rightarrow>
                 (case Users_findByPk up st decoded_id of
                    Inl err \<Rightarrow> Inl ''Authentication error''
                  | Inr None \<Rightarrow> Inl ''User not found''
                  | Inr (Some user) \<Rightarrow>
                      Inr \<lparr>uid = uid user, username = username user,
                           avatar_color = avatar_color user\<rparr>)))"

text \<open>
  A refused handshake leaves nothing behind: the \<^verbatim>\<open>connection\<close> callback, which
  registers the three handlers, runs only after \<^verbatim>\<open>next()\<close> without an error.
\<close>

definition connection ::
  "(string \<Rightarrow> string option) \<Rightarrow> bool \<Rightarrow> state \<Rightarrow> socket_id \<Rightarrow> string option \<Rightarrow> state" where
  "connection verify up st sid token =
     (case auth_middleware verify up st token of
        Inl err \<Rightarrow> st
      | Inr user \<Rightarrow> st\<lparr>sockets := (sockets st)(sid \<mapsto> user)\<rparr>)"

subsection \<open>The handlers (server.js, lines 52 to 93)\<close>

definition join_channel :: "state \<Rightarrow> socket_id \<Rightarrow> jsval \<Rightarrow> state" where
  "join_channel st sid channelId = socket_join st sid channelId"

text \<open>
  \<^verbatim>\<open>send_message\<close>, up to the first \<^verbatim>\<open>await\<close>. Destructuring an absent argument throws
  outside the \<^verbatim>\<open>try\<close> block, so the promise of the handler rejects and nothing else
  happens. Otherwise the argument of \<^verbatim>\<open>Messages.create\<close> is built, with \<^verbatim>\<open>user_id\<close> read
  from \<^verbatim>\<open>socket.user\<close>, and the handler is suspended.
\<close>

definition send_message :: "state \<Rightarrow> socket_id \<Rightarrow> identity \<Rightarrow> payload option \<Rightarrow> state" where
  "send_message st sid user data =
     (case data of
        None \<Rightarrow> st\<lparr>unhandled := Suc (unhandled st)\<rparr>
      | Some d \<Rightarrow>
          st\<lparr>pending := (pending st)(next_task st \<mapsto>
                 Awaiting_create sid (get_prop d ''channelId'') (get_prop d ''content'') (uid user)),
             next_task := Suc (next_task st)\<rparr>)"

text \<open>
  \<^verbatim>\<open>Messages.create\<close> has settled. If it rejected, the \<^verbatim>\<open>catch\<close> block sends \<^verbatim>\<open>error\<close>
  to the socket of the handler. If it resolved, \<^verbatim>\<open>Messages.findByPk\<close> is called with the
  id of the new row and the handler is suspended again.
\<close>

definition send_message_created ::
  "store \<Rightarrow> state \<Rightarrow> nat \<Rightarrow> bool \<Rightarrow> string \<Rightarrow> nat \<Rightarrow> state" where
  "send_message_created db st t up new_id now =
     (case pending st t of
        Some (Awaiting_create sid channelId content_v user_v) \<Rightarrow>
          (case Messages_create db up new_id now st content_v channelId user_v of
             Inl err \<Rightarrow>
               socket_emit (st\<lparr>pending := (pending st)(t := None)\<rparr>) sid
                 (Error ''Message could notqv be sent'')
           | Inr (newMessage, st') \<Rightarrow>
               st'\<lparr>pending := (pending st')(t \<mapsto>
                      Awaiting_findByPk sid channelId (mid newMessage))\<rparr>)
      | _ \<Rightarrow> st)"

text \<open>
  \<^verbatim>\<open>Messages.findByPk\<close> has settled. If it rejected, the same \<^verbatim>\<open>catch\<close> block runs. If
  it resolved, its result (\<^verbatim>\<open>null\<close> when no row has that id) is broadcast to the room
  named by \<^verbatim>\<open>channelId\<close>.
\<close>

definition send_message_fetched :: "state \<Rightarrow> nat \<Rightarrow> bool \<Rightarrow> state" where
  "send_message_fetched st t up =
     (case pending st t of
        Some (Awaiting_findByPk sid channelId new_id) \<Rightarrow>
          (case Messages_findByPk up st new_id of
             Inl err \<Rightarrow>
               socket_emit (st\<lparr>pending := (pending st)(t := None)\<rparr>) sid
                 (Error ''Message could notqv be sent'')
           | Inr messageWithSender \<Rightarrow>
               io_to_emit (st\<lparr>pending := (pending st)(t := None)\<rparr>) channelId
                 (Receive_message messageWithSender))
      | _ \<Rightarrow> st)"

text \<open>The \<^verbatim>\<open>disconnect\<close> handler only logs; the rooms were left just before it.\<close>

definition disconnect :: "state \<Rightarrow> socket_id \<Rightarrow> state" where
  "disconnect st sid = (leaveAll st sid)\<lparr>sockets := (sockets (leaveAll st sid))(sid := None)\<rparr>"

subsection \<open>Executions\<close>

text \<open>
  What can happen next: a handshake, an event from a client, a settled store call of a
  suspended handler, or a closed connection. A handshake uses a socket id that is not
  open; events of a socket reach a handler only while the socket is open.
\<close>

datatype event =
    Connect socket_id "string option" bool
  | Join_channel socket_id jsval
  | Send_message socket_id "payload option"
  | Create_settled nat bool string nat
  | FindByPk_settled nat bool
  | Disconnect socket_id

fun step :: "(string \<Rightarrow> string option) \<Rightarrow> store \<Rightarrow> state \<Rightarrow> event \<Rightarrow> state" where
  "step verify db st (Connect sid token up) =
     (case sockets st sid of
        None \<Rightarrow> connection verify up st sid token
      | Some user \<Rightarrow> st)"
| "step verify db st (Join_channel sid channelId) =
     (case sockets st sid of
        None \<Rightarrow> st
      | Some user \<Rightarrow> join_channel st sid channelId)"
| "step verify db st (Send_message sid data) =
     (case sockets st sid of
        None \<Rightarrow> st
      | Some user \<Rightarrow> send_message st sid user data)"
| "step verify db st (Create_settled t up new_id now) = send_message_created db st t up new_id now"
| "step verify db st (FindByPk_settled t up) = send_message_fetched st t up"
| "step verify db st (Disconnect sid) =
     (case sockets st sid of
        None \<Rightarrow> st
      | Some user \<Rightarrow> disconnect st sid)"

fun run :: "(string \<Rightarrow> string option) \<Rightarrow> store \<Rightarrow> state \<Rightarrow> event list \<Rightarrow> state" where
  "run verify db st [] = st"
| "run verify db st (e # es) = run verify db (step verify db st e) es"

text \<open>The process starts with the tables as they are and nothing else.\<close>

definition start :: "user_row list \<Rightarrow> channel list \<Rightarrow> message list \<Rightarrow> state" where
  "start us cs ms =
     \<lparr>Users = us, Channels = cs, Messages = ms, sockets = (\<lambda>sid. None),
      rooms = (\<lambda>room. []), pending = (\<lambda>t. None), next_task = 0, emitted = [],
      unhandled = 0\<rparr>"

section \<open>What is observed, and what holds in every state\<close>

text \<open>
  \<open>event_mid\<close> is the id of the message an event carries, \<open>copies st r k\<close> the number
  of \<^verbatim>\<open>receive_message\<close> events for message \<open>k\<close> sent to socket \<open>r\<close> so far, and
  \<open>stored st m\<close> says that the row a broadcast payload was read from is in the store.
\<close>

fun event_mid :: "out_event \<Rightarrow> string option" where
  "event_mid (Receive_message (Some m)) = Some (mid m)"
| "event_mid (Receive_message None) = None"
| "event_mid (Error msg) = None"

definition copies :: "state \<Rightarrow> socket_id \<Rightarrow> string \<Rightarrow> nat" where
  "copies st r k = length (filter (\<lambda>e. fst e = r \<and> event_mid (snd e) = Some k) (emitted st))"

definition stored :: "state \<Rightarrow> message_with_sender \<Rightarrow> bool" where
  "stored st m =
     (\<lparr>mid = mid m, content = content m, created_at = created_at m,
       user_id = user_id m, channel_id = channel_id m\<rparr> \<in> set (Messages st))"

text \<open>
  Three properties of the states the process can reach. \<open>rooms_ok\<close>: a room lists a
  socket at most once, and only open sockets. \<open>tasks_ok\<close>: message ids are unique, task
  numbers not yet given out are free, and a handler waiting for \<^verbatim>\<open>findByPk\<close> waits for
  a row that is in the store and that no other handler waits for. \<open>log_ok\<close>: every
  \<^verbatim>\<open>receive_message\<close> sent carries a stored row, nothing has been sent yet for a message
  whose handler still waits, and no socket was sent the same message twice. \<open>link_ok\<close>:
  the \<^verbatim>\<open>channelId\<close> a waiting handler will broadcast to is the string whose value is the
  \<^verbatim>\<open>channel_id\<close> of the row it waits for.
\<close>

definition rooms_ok :: "state \<Rightarrow> bool" where
  "rooms_ok st =
     (\<forall>room. distinct (rooms st room) \<and> (\<forall>r \<in> set (rooms st room). sockets st r \<noteq> None))"

definition tasks_ok :: "state \<Rightarrow> bool" where
  "tasks_ok st =
     (distinct (map mid (Messages st)) \<and>
      (\<forall>t. next_task st \<le> t \<longrightarrow> pending st t = None) \<and>
      (\<forall>t sid c k. pending st t = Some (Awaiting_findByPk sid c k) \<longrightarrow>
         k \<in> set (map mid (Messages st)) \<and>
         (\<forall>t' sid' c'. pending st t' = Some (Awaiting_findByPk sid' c' k) \<longrightarrow> t' = t)))"

definition log_ok :: "state \<Rightarrow> bool" where
  "log_ok st =
     ((\<forall>e \<in> set (emitted st). \<forall>p. snd e = Receive_message p \<longrightarrow> (\<exists>m. p = Some m \<and> stored st m)) \<and>
      (\<forall>t sid c k. pending st t = Some (Awaiting_findByPk sid c k) \<longrightarrow>
         (\<forall>e \<in> set (emitted st). event_mid (snd e) \<noteq> Some k)) \<and>
      (\<forall>r k. copies st r k \<le> 1))"

definition link_ok :: "store \<Rightarrow> state \<Rightarrow> bool" where
  "link_ok db st =
     (\<forall>t sid c k row. pending st t = Some (Awaiting_findByPk sid c k) \<longrightarrow>
        row \<in> set (Messages st) \<longrightarrow> mid row = k \<longrightarrow> foreign_key db c = Inr (channel_id row))"

definition consistent :: "store \<Rightarrow> state \<Rightarrow> bool" where
  "consistent db st = (rooms_ok st \<and> tasks_ok st \<and> log_ok st \<and> link_ok db st)"

text \<open>
  \<open>received st r\<close> is what socket \<open>r\<close> has been sent, in order, each event reduced to
  the id of the message it carries. \<open>connects\<close> and \<open>settles\<close> recognise the events that
  open a given socket id and that resume a given suspended handler.
\<close>

definition received :: "state \<Rightarrow> socket_id \<Rightarrow> string option list" where
  "received st r = map (\<lambda>e. event_mid (snd e)) (filter (\<lambda>e. fst e = r) (emitted st))"

fun connects :: "socket_id \<Rightarrow> event \<Rightarrow> bool" where
  "connects sid (Connect s token up) = (s = sid)"
| "connects sid e = False"

fun settles :: "nat \<Rightarrow> event \<Rightarrow> bool" where
  "settles t (Create_settled t' up new_id now) = (t' = t)"
| "settles t (FindByPk_settled t' up) = (t' = t)"
| "settles t e = False"

subsection \<open>A small installation, used to run the model\<close>

text \<open>
  Two users, one channel, an empty message table. \<open>jwt\<close> accepts three tokens: two of
  the users, and one that is well signed but names a user that does not exist. The
  database \<open>pg\<close> reads \<open>c1\<close> and \<open>C1\<close> as two spellings of the id of the channel,
  reads \<open>c404\<close> as an id that no channel has, and takes nothing else for a uuid; it keeps
  a text as it is unless the text holds a NUL character.
\<close>

definition alice :: user_row where
  "alice = \<lparr>uid = ''u1'', username = ''alice'', avatar_color = ''bg-blue-600'',
     status = ''online'', email = ''alice@example.org'', password = ''hash1''\<rparr>"

definition bob :: user_row where
  "bob = \<lparr>uid = ''u2'', username = ''bob'', avatar_color = ''bg-red-600'',
     status = ''offline'', email = ''bob@example.org'', password = ''hash2''\<rparr>"

definition general :: channel where
  "general = \<lparr>cid = ''c1'', name = ''general'', is_private = False, created_by = ''u1''\<rparr>"

definition jwt :: "string \<Rightarrow> string option" where
  "jwt tk =
     (if tk = ''tokA'' then Some ''u1''
      else if tk = ''tokB'' then Some ''u2''
      else if tk = ''tokC'' then Some ''u9''
      else None)"

definition pg :: store where
  "pg = \<lparr>uuid_in = map_of [(''c1'', ''c1''), (''C1'', ''c1''), (''c404'', ''c404'')],
          text_in = (\<lambda>text. if CHR 0x00 \<in> set text then None else Some text)\<rparr>"

definition s0 :: state where
  "s0 = start [alice, bob] [general] []"

definition two_joined :: "event list" where
  "two_joined =
     [Connect 1 (Some ''tokA'') True, Connect 2 (Some ''tokB'') True,
      Join_channel 1 (Str ''c1''), Join_channel 2 (Str ''c1'')]"

text \<open>Payloads a client may send, and the executions used below.\<close>

definition hello :: payload where
  "hello = [(''channelId'', Str ''c1''), (''content'', Str ''hi'')]"

definition blank :: payload where
  "blank = [(''channelId'', Str ''c1''), (''content'', Str ''   '')]"

definition empty_content :: payload where
  "empty_content = [(''channelId'', Str ''c1''), (''content'', Str [])]"

definition no_channel :: payload where
  "no_channel = [(''content'', Str ''hi'')]"

definition unknown_channel :: payload where
  "unknown_channel = [(''channelId'', Str ''c404''), (''content'', Str ''hi'')]"

definition forged :: payload where
  "forged = [(''channelId'', Str ''c1''), (''content'', Str ''hi''),
             (''user_id'', Str ''u2''), (''senderId'', Str ''u2'')]"

definition hello_other_spelling :: payload where
  "hello_other_spelling = [(''channelId'', Str ''C1''), (''content'', Str ''hi'')]"

definition blank_other_spelling :: payload where
  "blank_other_spelling = [(''channelId'', Str ''C1''), (''content'', Str ''   '')]"

definition store_sent :: "event list" where
  "store_sent = two_joined @ [Send_message 1 (Some hello)]"

definition other_sent :: "event list" where
  "other_sent = two_joined @ [Send_message 1 (Some hello_other_spelling)]"

definition persisted_other_spelling :: "event list" where
  "persisted_other_spelling = other_sent @ [Create_settled 0 True ''m1'' 7]"

definition store_down :: "event list" where
  "store_down = two_joined @ [Send_message 1 (Some hello)]"

definition persisted :: "event list" where
  "persisted = two_joined @ [Send_message 1 (Some hello), Create_settled 0 True ''m1'' 7]"

definition delivered :: "event list" where
  "delivered = persisted @ [FindByPk_settled 0 True]"

definition first_sent :: "event list" where
  "first_sent = two_joined @
     [Send_message 1 (Some [(''channelId'', Str ''c1''), (''content'', Str ''A'')]),
      Create_settled 0 True ''mA'' 7]"

definition second_sent :: "event list" where
  "second_sent =
     [Send_message 1 (Some [(''channelId'', Str ''c1''), (''content'', Str ''B'')]),
      Create_settled 1 True ''mB'' 8,
      FindByPk_settled 1 True,
      FindByPk_settled 0 True]"

definition second_after :: "event list" where
  "second_after =
     [Send_message 1 (Some [(''channelId'', Str ''c1''), (''content'', Str ''B'')]),
      Create_settled 1 True ''mB'' 8,
      FindByPk_settled 1 True]"

definition after_close :: "event list" where
  "after_close =
     [Send_message 2 (Some hello), Create_settled 0 True ''m1'' 7, FindByPk_settled 0 True]"

definition first_delivered :: "event list" where
  "first_delivered = first_sent @ [FindByPk_settled 0 True]"

definition hello_message :: message_with_sender where
  "hello_message =
     \<lparr>mid = ''m1'', content = ''hi'', created_at = 7, user_id = Some ''u1'',
      channel_id = Some ''c1'',
      sender = Some \<lparr>uid = ''u1'', username = ''alice'', avatar_color = ''bg-blue-600'',
                     status = ''online''\<rparr>\<rparr>"

section \<open>Lemmas\<close>

lemmas example_defs = s0_def start_def alice_def bob_def general_def jwt_def pg_def two_joined_def
  hello_def persisted_def

lemmas handler_defs = connection_def auth_middleware_def Users_findByPk_def join_channel_def
  socket_join_def send_message_def get_prop_def send_message_created_def Messages_create_def
  references_def send_message_fetched_def Messages_findByPk_def include_sender_def sender_of_def
  io_to_emit_def socket_emit_def disconnect_def leaveAll_def

lemma find_SomeD: "find P xs = Some x \<Longrightarrow> P x \<and> x \<in> set xs"
  by (induction xs) (auto split: if_splits)

lemma rooms_ok_start: "rooms_ok (start us cs ms)"
  by (simp add: rooms_ok_def start_def)

lemma tasks_ok_start: "distinct (map mid ms) \<Longrightarrow> tasks_ok (start us cs ms)"
  by (simp add: tasks_ok_def start_def)

lemma rooms_ok_step: "rooms_ok st \<Longrightarrow> rooms_ok (step verify db st e)"
  by (cases e)
     (auto simp: rooms_ok_def distinct_removeAll connection_def join_channel_def socket_join_def send_message_def
        send_message_created_def send_message_fetched_def disconnect_def leaveAll_def
        Messages_create_def socket_emit_def io_to_emit_def
        split: option.splits sum.splits task.splits jsval.splits if_splits)

lemma tasks_ok_step: "tasks_ok st \<Longrightarrow> tasks_ok (step verify db st e)"
  by (cases e)
     (auto simp: tasks_ok_def connection_def join_channel_def socket_join_def send_message_def
        send_message_created_def send_message_fetched_def disconnect_def leaveAll_def
        Messages_create_def socket_emit_def io_to_emit_def
        split: option.splits sum.splits task.splits jsval.splits if_splits)

lemma log_ok_start: "log_ok (start us cs ms)"
  by (simp add: log_ok_def start_def copies_def)

lemma stored_mid: "stored st m \<Longrightarrow> mid m \<in> set (map mid (Messages st))"
  unfolding stored_def by (metis (no_types, lifting) image_eqI list.set_map message.select_convs(1))

lemma event_mid_stored:
  assumes "log_ok st" and "e \<in> set (emitted st)" and "event_mid (snd e) = Some k"
  shows "k \<in> set (map mid (Messages st))"
proof -
  obtain m where m: "snd e = Receive_message (Some m)" "mid m = k"
    using assms(3) by (cases "snd e" rule: event_mid.cases) auto
  with assms(1,2) have "stored st m"
    unfolding log_ok_def by fastforce
  with m show ?thesis using stored_mid by blast
qed

lemma stored_include_sender [simp]: "stored st (include_sender st' row) = (row \<in> set (Messages st))"
  by (cases row) (simp add: stored_def include_sender_def)

lemma mid_include_sender [simp]: "mid (include_sender st row) = mid row"
  by (simp add: include_sender_def)

lemma stored_Messages_append: "stored st m \<Longrightarrow> Messages st' = Messages st @ new \<Longrightarrow> stored st' m"
  by (simp add: stored_def)

lemma copies_append:
  "emitted st' = emitted st @ new \<Longrightarrow>
   copies st' r k = copies st r k + length (filter (\<lambda>e. fst e = r \<and> event_mid (snd e) = Some k) new)"
  by (simp add: copies_def)

lemma filter_fanout:
  "length (filter (\<lambda>e. fst e = r \<and> event_mid (snd e) = Some k) (map (\<lambda>x. (x, ev)) xs)) =
     (if event_mid ev = Some k then count_list xs r else 0)"
  by (induction xs) auto

lemma count_list_distinct: "distinct xs \<Longrightarrow> count_list xs r = (if r \<in> set xs then 1 else 0)"
  by (induction xs) auto

lemma copies_zero: "(\<forall>e \<in> set (emitted st). event_mid (snd e) \<noteq> Some k) \<Longrightarrow> copies st r k = 0"
  by (auto simp: copies_def filter_empty_conv)

text \<open>What each piece of the handler does, case by case.\<close>

lemma created_other:
  "\<forall>sid c v u. pending st t \<noteq> Some (Awaiting_create sid c v u) \<Longrightarrow>
   send_message_created db st t up nid now = st"
  by (auto simp: send_message_created_def split: option.splits task.splits)

lemma created_rejected:
  "pending st t = Some (Awaiting_create sid c v u) \<Longrightarrow> Messages_create db up nid now st v c u = Inl err \<Longrightarrow>
   send_message_created db st t up nid now =
     st\<lparr>pending := (pending st)(t := None),
        emitted := emitted st @ [(sid, Error ''Message could notqv be sent'')]\<rparr>"
  by (simp add: send_message_created_def socket_emit_def)

lemma created_resolved:
  "pending st t = Some (Awaiting_create sid c v u) \<Longrightarrow> Messages_create db up nid now st v c u = Inr (row, st') \<Longrightarrow>
   send_message_created db st t up nid now =
     st\<lparr>Messages := Messages st @ [row], pending := (pending st)(t \<mapsto> Awaiting_findByPk sid c nid)\<rparr>
   \<and> mid row = nid \<and> nid \<notin> set (map mid (Messages st))"
  by (auto simp: send_message_created_def Messages_create_def
        split: jsval.splits option.splits sum.splits if_splits)

lemma Messages_create_row:
  "Messages_create db up nid now st v c u = Inr (row, st') \<Longrightarrow>
   mid row = nid \<and> user_id row = Some u \<and> foreign_key db c = Inr (channel_id row)
   \<and> (\<exists>text. v = Str text \<and> text_in db text = Some (content row))"
  by (auto simp: Messages_create_def split: jsval.splits option.splits sum.splits if_splits)

lemma fetched_other:
  "\<forall>sid c k. pending st t \<noteq> Some (Awaiting_findByPk sid c k) \<Longrightarrow>
   send_message_fetched st t up = st"
  by (auto simp: send_message_fetched_def split: option.splits task.splits)

lemma fetched_rejected:
  "pending st t = Some (Awaiting_findByPk sid c k) \<Longrightarrow>
   send_message_fetched st t False =
     st\<lparr>pending := (pending st)(t := None),
        emitted := emitted st @ [(sid, Error ''Message could notqv be sent'')]\<rparr>"
  by (simp add: send_message_fetched_def Messages_findByPk_def socket_emit_def)

lemma fetched_resolved:
  "pending st t = Some (Awaiting_findByPk sid c k) \<Longrightarrow>
   send_message_fetched st t True =
     st\<lparr>pending := (pending st)(t := None),
        emitted := emitted st @
          map (\<lambda>r. (r, Receive_message (map_option (include_sender st) (find (\<lambda>m. mid m = k) (Messages st)))))
            (rooms st c)\<rparr>"
  by (simp add: send_message_fetched_def Messages_findByPk_def io_to_emit_def)

lemma find_mid:
  "k \<in> set (map mid ms) \<Longrightarrow> \<exists>row. find (\<lambda>m. mid m = k) ms = Some row \<and> mid row = k \<and> row \<in> set ms"
  by (induction ms) auto

lemma log_ok_frame:
  assumes ok: "log_ok st"
    and em: "emitted st' = emitted st @ new"
    and ms: "Messages st' = Messages st @ rows"
    and new_stored: "\<And>e p. e \<in> set new \<Longrightarrow> snd e = Receive_message p \<Longrightarrow> \<exists>m. p = Some m \<and> stored st' m"
    and unsent: "\<And>t sid c k e. pending st' t = Some (Awaiting_findByPk sid c k) \<Longrightarrow>
        e \<in> set (emitted st) \<or> e \<in> set new \<Longrightarrow> event_mid (snd e) \<noteq> Some k"
    and once: "\<And>r k. copies st r k + length (filter (\<lambda>e. fst e = r \<and> event_mid (snd e) = Some k) new) \<le> 1"
  shows "log_ok st'"
proof -
  have a: "\<forall>e \<in> set (emitted st'). \<forall>p. snd e = Receive_message p \<longrightarrow> (\<exists>m. p = Some m \<and> stored st' m)"
  proof (intro ballI allI impI)
    fix e p assume e: "e \<in> set (emitted st')" and p: "snd e = Receive_message p"
    from e em have "e \<in> set (emitted st) \<or> e \<in> set new" by simp
    then show "\<exists>m. p = Some m \<and> stored st' m"
    proof
      assume "e \<in> set (emitted st)"
      with ok p obtain m where "p = Some m" "stored st m"
        unfolding log_ok_def by blast
      then show ?thesis using stored_Messages_append [OF _ ms] by blast
    next
      assume "e \<in> set new"
      then show ?thesis using new_stored p by blast
    qed
  qed
  have b: "\<forall>t sid c k. pending st' t = Some (Awaiting_findByPk sid c k) \<longrightarrow>
         (\<forall>e \<in> set (emitted st'). event_mid (snd e) \<noteq> Some k)"
    using unsent em by auto
  have c: "\<forall>r k. copies st' r k \<le> 1"
    using once copies_append [OF em] by simp
  show ?thesis unfolding log_ok_def using a b c by blast
qed

lemma log_ok_unsent:
  "log_ok st \<Longrightarrow> pending st t = Some (Awaiting_findByPk sid c k) \<Longrightarrow> e \<in> set (emitted st) \<Longrightarrow>
   event_mid (snd e) \<noteq> Some k"
  unfolding log_ok_def by blast

lemma log_ok_once: "log_ok st \<Longrightarrow> copies st r k \<le> 1"
  unfolding log_ok_def by blast

lemma log_ok_created:
  assumes "tasks_ok st" and "log_ok st"
  shows "log_ok (send_message_created db st t up nid now)"
proof (cases "pending st t")
  case None
  then show ?thesis using assms(2) by (simp add: created_other)
next
  case (Some tk)
  show ?thesis
  proof (cases tk)
    case (Awaiting_findByPk sid c k)
    with Some show ?thesis using assms(2) by (simp add: created_other)
  next
    case (Awaiting_create sid c v u)
    with Some have p: "pending st t = Some (Awaiting_create sid c v u)" by simp
    show ?thesis
    proof (cases "Messages_create db up nid now st v c u")
      case (Inl err)
      have eq: "send_message_created db st t up nid now =
          st\<lparr>pending := (pending st)(t := None),
             emitted := emitted st @ [(sid, Error ''Message could notqv be sent'')]\<rparr>"
        using created_rejected [OF p Inl] .
      show ?thesis unfolding eq
      proof (rule log_ok_frame [OF assms(2), where new = "[(sid, Error ''Message could notqv be sent'')]" and rows = "[]"])
        fix t' sid' c' k e
        assume "pending (st\<lparr>pending := (pending st)(t := None),
             emitted := emitted st @ [(sid, Error ''Message could notqv be sent'')]\<rparr>) t' = Some (Awaiting_findByPk sid' c' k)"
          and "e \<in> set (emitted st) \<or> e \<in> set [(sid, Error ''Message could notqv be sent'')]"
        then show "event_mid (snd e) \<noteq> Some k"
          using log_ok_unsent [OF assms(2)] by (cases e) (auto split: if_splits)
      qed (use log_ok_once [OF assms(2)] in auto)
    next
      case (Inr res)
      obtain row st' where res: "res = (row, st')" by (cases res)
      from created_resolved [OF p Inr [unfolded res]]
      have eq: "send_message_created db st t up nid now =
          st\<lparr>Messages := Messages st @ [row], pending := (pending st)(t \<mapsto> Awaiting_findByPk sid c nid)\<rparr>"
        and fresh: "nid \<notin> set (map mid (Messages st))" by auto
      have nolog: "\<And>e. e \<in> set (emitted st) \<Longrightarrow> event_mid (snd e) \<noteq> Some nid"
        using event_mid_stored [OF assms(2)] fresh by blast
      show ?thesis unfolding eq
      proof (rule log_ok_frame [OF assms(2), where new = "[]" and rows = "[row]"])
        fix t' sid' c' k e
        assume "pending (st\<lparr>Messages := Messages st @ [row], pending := (pending st)(t \<mapsto> Awaiting_findByPk sid c nid)\<rparr>) t'
                 = Some (Awaiting_findByPk sid' c' k)"
          and "e \<in> set (emitted st) \<or> e \<in> set []"
        then show "event_mid (snd e) \<noteq> Some k"
          using log_ok_unsent [OF assms(2)] nolog by (cases e) (auto split: if_splits)
      qed (use log_ok_once [OF assms(2)] in auto)
    qed
  qed
qed

lemma log_ok_fetched:
  assumes r: "rooms_ok st" and tk: "tasks_ok st" and ok: "log_ok st"
  shows "log_ok (send_message_fetched st t up)"
proof (cases "\<exists>sid c k. pending st t = Some (Awaiting_findByPk sid c k)")
  case False
  then show ?thesis using ok by (simp add: fetched_other)
next
  case True
  then obtain sid c k where p: "pending st t = Some (Awaiting_findByPk sid c k)" by blast
  show ?thesis
  proof (cases up)
    case False
    have eq: "send_message_fetched st t up =
        st\<lparr>pending := (pending st)(t := None),
           emitted := emitted st @ [(sid, Error ''Message could notqv be sent'')]\<rparr>"
      using False fetched_rejected [OF p] by simp
    show ?thesis unfolding eq
    proof (rule log_ok_frame [OF ok, where new = "[(sid, Error ''Message could notqv be sent'')]" and rows = "[]"])
      fix t' sid' c' k' e
      assume "pending (st\<lparr>pending := (pending st)(t := None),
             emitted := emitted st @ [(sid, Error ''Message could notqv be sent'')]\<rparr>) t' = Some (Awaiting_findByPk sid' c' k')"
        and "e \<in> set (emitted st) \<or> e \<in> set [(sid, Error ''Message could notqv be sent'')]"
      then show "event_mid (snd e) \<noteq> Some k'"
        using log_ok_unsent [OF ok] by (cases e) (auto split: if_splits)
    qed (use log_ok_once [OF ok] in auto)
  next
    case True
    from tk p have kin: "k \<in> set (map mid (Messages st))"
      and uniq: "\<And>t' sid' c'. pending st t' = Some (Awaiting_findByPk sid' c' k) \<Longrightarrow> t' = t"
      unfolding tasks_ok_def by blast+
    from find_mid [OF kin] obtain row
      where row: "find (\<lambda>m. mid m = k) (Messages st) = Some row" "mid row = k" "row \<in> set (Messages st)"
      by blast
    let ?ev = "Receive_message (Some (include_sender st row))"
    let ?new = "map (\<lambda>r. (r, ?ev)) (rooms st c)"
    have eq: "send_message_fetched st t up =
        st\<lparr>pending := (pending st)(t := None), emitted := emitted st @ ?new\<rparr>"
      using True fetched_resolved [OF p] row(1) by simp
    have zero: "\<And>r. copies st r k = 0"
      using log_ok_unsent [OF ok p] by (simp add: copies_zero)
    have dist: "distinct (rooms st c)" using r unfolding rooms_ok_def by blast
    show ?thesis unfolding eq
    proof (rule log_ok_frame [OF ok, where new = ?new and rows = "[]"])
      fix e q assume "e \<in> set ?new" "snd e = Receive_message q"
      then show "\<exists>m. q = Some m \<and> stored (st\<lparr>pending := (pending st)(t := None), emitted := emitted st @ ?new\<rparr>) m"
        using row(3) by (auto simp: stored_def include_sender_def) (cases row, simp)
    next
      fix t' sid' c' k' e
      assume t': "pending (st\<lparr>pending := (pending st)(t := None), emitted := emitted st @ ?new\<rparr>) t'
               = Some (Awaiting_findByPk sid' c' k')"
        and e: "e \<in> set (emitted st) \<or> e \<in> set ?new"
      from t' have t'2: "t' \<noteq> t" "pending st t' = Some (Awaiting_findByPk sid' c' k')"
        by (auto split: if_splits)
      with uniq have "k' \<noteq> k" by blast
      then show "event_mid (snd e) \<noteq> Some k'"
        using e log_ok_unsent [OF ok t'2(2)] row(2) by (cases e) auto
    next
      fix r k'
      show "copies st r k' + length (filter (\<lambda>e. fst e = r \<and> event_mid (snd e) = Some k') ?new) \<le> 1"
        unfolding filter_fanout
        using zero [of r] log_ok_once [OF ok, of r k'] row(2) count_list_distinct [OF dist, of r]
        by (cases "k' = k") auto
    qed simp_all
  qed
qed
lemma log_ok_step:
  assumes "rooms_ok st" and "tasks_ok st" and "log_ok st"
  shows "log_ok (step verify db st e)"
proof (cases e)
  case (Create_settled t up nid now)
  then show ?thesis using log_ok_created [OF assms(2,3)] by simp
next
  case (FindByPk_settled t up)
  then show ?thesis using log_ok_fetched [OF assms] by simp
next
  case (Connect sid token up)
  then show ?thesis using assms(3)
    by (auto simp: log_ok_def copies_def stored_def connection_def split: option.splits sum.splits)
next
  case (Join_channel sid c)
  then show ?thesis using assms(3)
    by (auto simp: log_ok_def copies_def stored_def join_channel_def socket_join_def split: option.splits)
next
  case (Send_message sid d)
  then show ?thesis using assms(3)
    by (auto simp: log_ok_def copies_def stored_def send_message_def split: option.splits if_splits)
next
  case (Disconnect sid)
  then show ?thesis using assms(3)
    by (auto simp: log_ok_def copies_def stored_def disconnect_def leaveAll_def split: option.splits)
qed

lemma link_ok_start: "link_ok db (start us cs ms)"
  by (simp add: link_ok_def start_def)

lemma link_ok_created:
  assumes tk: "tasks_ok st" and lk: "link_ok db st"
  shows "link_ok db (send_message_created db st t up nid now)"
proof (cases "\<exists>sid c v u. pending st t = Some (Awaiting_create sid c v u)")
  case False
  then show ?thesis using lk by (simp add: created_other)
next
  case True
  then obtain sid c v u where p: "pending st t = Some (Awaiting_create sid c v u)" by blast
  show ?thesis
  proof (cases "Messages_create db up nid now st v c u")
    case (Inl err)
    show ?thesis unfolding created_rejected [OF p Inl] using lk
      by (auto simp: link_ok_def split: if_splits)
  next
    case (Inr res)
    obtain row st' where res: "res = (row, st')" by (cases res)
    from created_resolved [OF p Inr [unfolded res]]
    have eq: "send_message_created db st t up nid now =
        st\<lparr>Messages := Messages st @ [row], pending := (pending st)(t \<mapsto> Awaiting_findByPk sid c nid)\<rparr>"
      and row: "mid row = nid" and fresh: "nid \<notin> set (map mid (Messages st))" by auto
    from Messages_create_row [OF Inr [unfolded res]]
    have ch: "foreign_key db c = Inr (channel_id row)" by simp
    have old: "\<And>t' sid' c' k. pending st t' = Some (Awaiting_findByPk sid' c' k) \<Longrightarrow> k \<noteq> nid"
      using tk fresh unfolding tasks_ok_def by blast
    show ?thesis unfolding eq link_ok_def
    proof (intro allI impI)
      fix t' sid' c' k r
      assume a: "pending (st\<lparr>Messages := Messages st @ [row],
                   pending := (pending st)(t \<mapsto> Awaiting_findByPk sid c nid)\<rparr>) t'
                 = Some (Awaiting_findByPk sid' c' k)"
        and b: "r \<in> set (Messages (st\<lparr>Messages := Messages st @ [row],
                   pending := (pending st)(t \<mapsto> Awaiting_findByPk sid c nid)\<rparr>))"
        and m: "mid r = k"
      show "foreign_key db c' = Inr (channel_id r)"
      proof (cases "t' = t")
        case True
        with a have "c' = c" "k = nid" by simp_all
        moreover from b m \<open>k = nid\<close> fresh have "r = row" by auto
        ultimately show ?thesis using ch by simp
      next
        case False
        with a have p': "pending st t' = Some (Awaiting_findByPk sid' c' k)" by simp
        with old have "k \<noteq> nid" by blast
        with b m row have "r \<in> set (Messages st)" by auto
        with lk p' m show ?thesis unfolding link_ok_def by blast
      qed
    qed
  qed
qed

lemma link_ok_step:
  assumes "tasks_ok st" and "link_ok db st"
  shows "link_ok db (step verify db st e)"
proof (cases e)
  case (Create_settled t up nid now)
  then show ?thesis using link_ok_created [OF assms] by simp
next
  case (FindByPk_settled t up)
  then show ?thesis using assms(2)
    by (auto simp: link_ok_def send_message_fetched_def Messages_findByPk_def socket_emit_def
          io_to_emit_def split: option.splits task.splits if_splits)
next
  case (Connect sid token up)
  then show ?thesis using assms(2)
    by (auto simp: link_ok_def connection_def split: option.splits sum.splits)
next
  case (Join_channel sid c)
  then show ?thesis using assms(2)
    by (auto simp: link_ok_def join_channel_def socket_join_def split: option.splits)
next
  case (Send_message sid d)
  then show ?thesis using assms(2)
    by (auto simp: link_ok_def send_message_def split: option.splits if_splits)
next
  case (Disconnect sid)
  then show ?thesis using assms(2)
    by (auto simp: link_ok_def disconnect_def leaveAll_def split: option.splits)
qed

lemma consistent_start: "distinct (map mid ms) \<Longrightarrow> consistent db (start us cs ms)"
  by (simp add: consistent_def rooms_ok_start tasks_ok_start log_ok_start link_ok_start)

lemma consistent_step: "consistent db st \<Longrightarrow> consistent db (step verify db st e)"
  by (simp add: consistent_def rooms_ok_step tasks_ok_step log_ok_step link_ok_step)

lemma consistent_run: "consistent db st \<Longrightarrow> consistent db (run verify db st es)"
  by (induction es arbitrary: st) (simp_all add: consistent_step)

lemma consistent_reached:
  "distinct (map mid ms) \<Longrightarrow> consistent db (run verify db (start us cs ms) es)"
  by (simp add: consistent_start consistent_run)

lemma run_append: "run verify db st (es @ es') = run verify db (run verify db st es) es'"
  by (induction es arbitrary: st) simp_all

lemma step_emitted: "\<exists>new. emitted (step verify db st e) = emitted st @ new"
  by (cases e)
     (auto simp: connection_def join_channel_def socket_join_def send_message_def
        send_message_created_def send_message_fetched_def disconnect_def leaveAll_def
        socket_emit_def io_to_emit_def Messages_create_def
        split: option.splits sum.splits task.splits jsval.splits if_splits)

lemma run_emitted: "\<exists>new. emitted (run verify db st es) = emitted st @ new"
proof (induction es arbitrary: st)
  case Nil
  then show ?case by simp
next
  case (Cons e es)
  obtain a where a: "emitted (step verify db st e) = emitted st @ a"
    using step_emitted by blast
  obtain b where "emitted (run verify db (step verify db st e) es) = emitted (step verify db st e) @ b"
    using Cons.IH by blast
  with a show ?case by simp
qed

lemma quiet_step:
  assumes k: "k \<in> set (map mid (Messages st))"
    and q: "\<forall>t sid c. pending st t \<noteq> Some (Awaiting_findByPk sid c k)"
  shows "k \<in> set (map mid (Messages (step verify db st e)))
       \<and> (\<forall>t sid c. pending (step verify db st e) t \<noteq> Some (Awaiting_findByPk sid c k))
       \<and> copies (step verify db st e) r k = copies st r k"
proof (cases e)
  case (Create_settled t up nid now)
  show ?thesis
  proof (cases "\<exists>sid c v u. pending st t = Some (Awaiting_create sid c v u)")
    case False
    then show ?thesis using k q Create_settled by (simp add: created_other)
  next
    case True
    then obtain sid c v u where p: "pending st t = Some (Awaiting_create sid c v u)" by blast
    show ?thesis
    proof (cases "Messages_create db up nid now st v c u")
      case (Inl err)
      show ?thesis using k q Create_settled created_rejected [OF p Inl]
        by (simp add: copies_def)
    next
      case (Inr res)
      obtain row st' where res: "res = (row, st')" by (cases res)
      from created_resolved [OF p Inr [unfolded res]] k
      have "nid \<noteq> k" by auto
      then show ?thesis using k q Create_settled created_resolved [OF p Inr [unfolded res]]
        by (simp add: copies_def)
    qed
  qed
next
  case (FindByPk_settled t up)
  show ?thesis
  proof (cases "\<exists>sid c k'. pending st t = Some (Awaiting_findByPk sid c k')")
    case False
    then show ?thesis using k q FindByPk_settled by (simp add: fetched_other)
  next
    case True
    then obtain sid c k' where p: "pending st t = Some (Awaiting_findByPk sid c k')" by blast
    with q have ne: "k' \<noteq> k" by auto
    show ?thesis
    proof (cases up)
      case False
      then show ?thesis using k q FindByPk_settled fetched_rejected [OF p]
        by (simp add: copies_def)
    next
      case True
      let ?p = "map_option (include_sender st) (find (\<lambda>m. mid m = k') (Messages st))"
      have "event_mid (Receive_message ?p) \<noteq> Some k"
        using ne by (cases "find (\<lambda>m. mid m = k') (Messages st)") (auto dest: find_SomeD)
      then have "length (filter (\<lambda>e. fst e = r \<and> event_mid (snd e) = Some k)
                   (map (\<lambda>x. (x, Receive_message ?p)) (rooms st c))) = 0"
        unfolding filter_fanout by simp
      then show ?thesis using k q True FindByPk_settled fetched_resolved [OF p]
        by (simp add: copies_def)
    qed
  qed
next
  case (Connect sid token up)
  then show ?thesis using k q
    by (auto simp: copies_def connection_def split: option.splits sum.splits)
next
  case (Join_channel sid c)
  then show ?thesis using k q
    by (auto simp: copies_def join_channel_def socket_join_def split: option.splits)
next
  case (Send_message sid d)
  then show ?thesis using k q
    by (auto simp: copies_def send_message_def split: option.splits if_splits)
next
  case (Disconnect sid)
  then show ?thesis using k q
    by (auto simp: copies_def disconnect_def leaveAll_def split: option.splits)
qed

lemma quiet_run:
  assumes "k \<in> set (map mid (Messages st))"
    and "\<forall>t sid c. pending st t \<noteq> Some (Awaiting_findByPk sid c k)"
  shows "k \<in> set (map mid (Messages (run verify db st es)))
       \<and> copies (run verify db st es) r k = copies st r k"
  using assms
proof (induction es arbitrary: st)
  case Nil
  then show ?case by simp
next
  case (Cons e es)
  from quiet_step [OF Cons.prems, of verify db e r]
  have a: "k \<in> set (map mid (Messages (step verify db st e)))"
    and b: "\<forall>t sid c. pending (step verify db st e) t \<noteq> Some (Awaiting_findByPk sid c k)"
    and c: "copies (step verify db st e) r k = copies st r k" by blast+
  from Cons.IH [OF a b] c show ?case by simp
qed

lemma closed_step:
  assumes "sockets st sid = None" and "\<forall>room. sid \<notin> set (rooms st room)" and "\<not> connects sid e"
  shows "sockets (step verify db st e) sid = None
       \<and> (\<forall>room. sid \<notin> set (rooms (step verify db st e) room))
       \<and> (\<exists>new. emitted (step verify db st e) = emitted st @ new \<and> (\<forall>p. (sid, Receive_message p) \<notin> set new))"
  using assms
  by (cases e)
     (auto simp: connection_def join_channel_def socket_join_def send_message_def
        send_message_created_def send_message_fetched_def disconnect_def leaveAll_def
        socket_emit_def io_to_emit_def Messages_create_def
        split: option.splits sum.splits task.splits jsval.splits if_splits)

lemma closed_run:
  assumes "sockets st sid = None" and "\<forall>room. sid \<notin> set (rooms st room)"
    and "\<forall>e \<in> set es. \<not> connects sid e"
  shows "sockets (run verify db st es) sid = None
       \<and> (\<forall>room. sid \<notin> set (rooms (run verify db st es) room))
       \<and> (\<exists>new. emitted (run verify db st es) = emitted st @ new \<and> (\<forall>p. (sid, Receive_message p) \<notin> set new))"
  using assms
proof (induction es arbitrary: st)
  case Nil
  then show ?case by simp
next
  case (Cons e es)
  from Cons.prems(3) have ne: "\<not> connects sid e" and rest: "\<forall>e \<in> set es. \<not> connects sid e" by simp_all
  from closed_step [OF Cons.prems(1,2) ne, of verify db]
  obtain a where s: "sockets (step verify db st e) sid = None"
    and r: "\<forall>room. sid \<notin> set (rooms (step verify db st e) room)"
    and a: "emitted (step verify db st e) = emitted st @ a" "\<forall>p. (sid, Receive_message p) \<notin> set a"
    by blast
  from Cons.IH [OF s r rest]
  obtain b where s': "sockets (run verify db (step verify db st e) es) sid = None"
    and r': "\<forall>room. sid \<notin> set (rooms (run verify db (step verify db st e) es) room)"
    and b: "emitted (run verify db (step verify db st e) es) = emitted (step verify db st e) @ b"
       "\<forall>p. (sid, Receive_message p) \<notin> set b"
    by blast
  have "emitted (run verify db st (e # es)) = emitted st @ (a @ b)
      \<and> (\<forall>p. (sid, Receive_message p) \<notin> set (a @ b))"
    using a b by simp
  then show ?case using s' r' by (metis run.simps(2))
qed

lemma pending_kept_step:
  "t < next_task st \<Longrightarrow> \<not> settles t e \<Longrightarrow>
   pending (step verify db st e) t = pending st t \<and> t < next_task (step verify db st e)"
  by (cases e)
     (auto simp: connection_def join_channel_def socket_join_def send_message_def
        send_message_created_def send_message_fetched_def disconnect_def leaveAll_def
        socket_emit_def io_to_emit_def Messages_create_def
        split: option.splits sum.splits task.splits jsval.splits if_splits)

lemma pending_kept_run:
  "t < next_task st \<Longrightarrow> \<forall>e \<in> set es. \<not> settles t e \<Longrightarrow>
   pending (run verify db st es) t = pending st t \<and> t < next_task (run verify db st es)"
proof (induction es arbitrary: st)
  case Nil
  then show ?case by simp
next
  case (Cons e es)
  then show ?case using pending_kept_step [of t st e verify db] by simp
qed

lemma socket_kept_step:
  "sockets st sid = Some user \<Longrightarrow> e \<noteq> Disconnect sid \<Longrightarrow> sockets (step verify db st e) sid = Some user"
  by (cases e)
     (auto simp: connection_def join_channel_def socket_join_def send_message_def
        send_message_created_def send_message_fetched_def disconnect_def leaveAll_def
        socket_emit_def io_to_emit_def Messages_create_def
        split: option.splits sum.splits task.splits jsval.splits if_splits)

lemma socket_kept_run:
  "sockets st sid = Some user \<Longrightarrow> Disconnect sid \<notin> set es \<Longrightarrow> sockets (run verify db st es) sid = Some user"
proof (induction es arbitrary: st)
  case Nil
  then show ?case by simp
next
  case (Cons e es)
  then show ?case using socket_kept_step [of st sid user e verify db] by auto
qed

lemma settled_after_fetch:
  assumes c: "consistent db st" and p: "pending st t = Some (Awaiting_findByPk sid c k)"
  shows "k \<in> set (map mid (Messages (step verify db st (FindByPk_settled t up))))"
    and "\<forall>t' sid' c'. pending (step verify db st (FindByPk_settled t up)) t' \<noteq> Some (Awaiting_findByPk sid' c' k)"
    and "copies st r k = 0"
proof -
  from c have tk: "tasks_ok st" and lg: "log_ok st" by (simp_all add: consistent_def)
  from tk p have kin: "k \<in> set (map mid (Messages st))"
    and uniq: "\<And>t' sid' c'. pending st t' = Some (Awaiting_findByPk sid' c' k) \<Longrightarrow> t' = t"
    unfolding tasks_ok_def by blast+
  show "copies st r k = 0" using log_ok_unsent [OF lg p] by (simp add: copies_zero)
  show "k \<in> set (map mid (Messages (step verify db st (FindByPk_settled t up))))"
    using kin fetched_rejected [OF p] fetched_resolved [OF p] by (cases up) simp_all
  show "\<forall>t' sid' c'. pending (step verify db st (FindByPk_settled t up)) t' \<noteq> Some (Awaiting_findByPk sid' c' k)"
    using uniq fetched_rejected [OF p] fetched_resolved [OF p] by (cases up) auto
qed

lemma fanout_state:
  assumes c: "consistent db st" and p: "pending st t = Some (Awaiting_findByPk sid c k)"
  shows "(\<exists>m. mid m = k \<and> stored st m \<and> foreign_key db c = Inr (channel_id m) \<and>
            emitted (step verify db st (FindByPk_settled t True))
              = emitted st @ map (\<lambda>r. (r, Receive_message (Some m))) (rooms st c))
       \<and> copies (run verify db (step verify db st (FindByPk_settled t True)) es') r k
           = (if r \<in> set (rooms st c) then 1 else 0)"
proof -
  from c have tk: "tasks_ok st" and ro: "rooms_ok st" and lk: "link_ok db st"
    by (simp_all add: consistent_def)
  from tk p have kin: "k \<in> set (map mid (Messages st))"
    unfolding tasks_ok_def by blast
  from find_mid [OF kin] obtain row
    where row: "find (\<lambda>m. mid m = k) (Messages st) = Some row" "mid row = k" "row \<in> set (Messages st)"
    by blast
  from lk p row(2,3) have ch: "foreign_key db c = Inr (channel_id row)"
    unfolding link_ok_def by blast
  let ?m = "include_sender st row"
  have eq: "emitted (step verify db st (FindByPk_settled t True))
              = emitted st @ map (\<lambda>r. (r, Receive_message (Some ?m))) (rooms st c)"
    using fetched_resolved [OF p] row(1) by simp
  have "channel_id ?m = channel_id row" by (simp add: include_sender_def)
  with ch have ch': "foreign_key db c = Inr (channel_id ?m)" by simp
  have first: "\<exists>m. mid m = k \<and> stored st m \<and> foreign_key db c = Inr (channel_id m) \<and>
            emitted (step verify db st (FindByPk_settled t True))
              = emitted st @ map (\<lambda>r. (r, Receive_message (Some m))) (rooms st c)"
    using eq row(2,3) ch' by (intro exI [of _ ?m]) simp
  have s: "k \<in> set (map mid (Messages (step verify db st (FindByPk_settled t True))))"
    "\<forall>t' sid' c'. pending (step verify db st (FindByPk_settled t True)) t' \<noteq> Some (Awaiting_findByPk sid' c' k)"
    "copies st r k = 0"
    using settled_after_fetch [OF c p] by blast+
  have dist: "distinct (rooms st c)" using ro unfolding rooms_ok_def by blast
  have "copies (step verify db st (FindByPk_settled t True)) r k
          = copies st r k + length (filter (\<lambda>e. fst e = r \<and> event_mid (snd e) = Some k)
              (map (\<lambda>r. (r, Receive_message (Some ?m))) (rooms st c)))"
    using copies_append [OF eq] .
  also have "\<dots> = (if r \<in> set (rooms st c) then 1 else 0)"
    unfolding filter_fanout using s(3) row(2) count_list_distinct [OF dist, of r] by simp
  finally have one: "copies (step verify db st (FindByPk_settled t True)) r k
          = (if r \<in> set (rooms st c) then 1 else 0)" .
  from quiet_run [OF s(1) s(2), of verify db es' r] one first
  show ?thesis by simp
qed

lemma create_settled_written:
  assumes p: "pending st t = Some (Awaiting_create sid c v u)"
    and w: "Messages (step verify db st (Create_settled t up nid now)) \<noteq> Messages st"
  shows "\<exists>row. step verify db st (Create_settled t up nid now)
           = st\<lparr>Messages := Messages st @ [row],
                pending := (pending st)(t \<mapsto> Awaiting_findByPk sid c nid)\<rparr>
         \<and> mid row = nid \<and> user_id row = Some u \<and> foreign_key db c = Inr (channel_id row)
         \<and> (\<exists>text. v = Str text \<and> text_in db text = Some (content row))"
proof (cases "Messages_create db up nid now st v c u")
  case (Inl err)
  from created_rejected [OF p Inl] w show ?thesis by simp
next
  case (Inr res)
  obtain row st' where res: "res = (row, st')" by (cases res)
  from created_resolved [OF p Inr [unfolded res]] Messages_create_row [OF Inr [unfolded res]]
  show ?thesis by (intro exI [of _ row]) simp
qed

lemma received_append:
  "emitted st' = emitted st @ new \<Longrightarrow>
   received st' r = received st r @ map (\<lambda>e. event_mid (snd e)) (filter (\<lambda>e. fst e = r) new)"
  by (simp add: received_def)

section \<open>The claims\<close>

text \<open>
  C1. A \<^verbatim>\<open>receive_message\<close> is broadcast only for a message whose write has succeeded:
  in every state the process can reach, every \<^verbatim>\<open>receive_message\<close> that was sent carries a
  row that is in the store. When the write of a suspended \<^verbatim>\<open>send_message\<close> fails, the
  store is unchanged, the only event sent is \<^verbatim>\<open>error\<close>, to the socket of the sender, and
  the handler is over.
\<close>

theorem no_broadcast_without_persistence:
  assumes "distinct (map mid ms)" and "st = run verify db (start us cs ms) es"
  shows "(\<forall>r p. (r, Receive_message p) \<in> set (emitted st) \<longrightarrow> (\<exists>m. p = Some m \<and> stored st m))
       \<and> (\<forall>t sid c v u err.
            pending st t = Some (Awaiting_create sid c v u) \<longrightarrow>
            Messages_create db up nid now st v c u = Inl err \<longrightarrow>
              Messages (step verify db st (Create_settled t up nid now)) = Messages st
            \<and> emitted (step verify db st (Create_settled t up nid now))
                = emitted st @ [(sid, Error ''Message could notqv be sent'')]
            \<and> pending (step verify db st (Create_settled t up nid now)) t = None)"
proof -
  have "consistent db st" using assms consistent_reached by simp
  then have "log_ok st" by (simp add: consistent_def)
  then have a: "\<forall>r p. (r, Receive_message p) \<in> set (emitted st) \<longrightarrow> (\<exists>m. p = Some m \<and> stored st m)"
    unfolding log_ok_def by fastforce
  have b: "\<forall>t sid c v u err.
            pending st t = Some (Awaiting_create sid c v u) \<longrightarrow>
            Messages_create db up nid now st v c u = Inl err \<longrightarrow>
              Messages (step verify db st (Create_settled t up nid now)) = Messages st
            \<and> emitted (step verify db st (Create_settled t up nid now))
                = emitted st @ [(sid, Error ''Message could notqv be sent'')]
            \<and> pending (step verify db st (Create_settled t up nid now)) t = None"
    by (simp add: created_rejected)
  from a b show ?thesis by blast
qed

theorem no_broadcast_without_persistence_witness:
  "distinct (map mid []) \<and>
   emitted (run jwt pg s0 delivered)
     = [(1, Receive_message (Some hello_message)), (2, Receive_message (Some hello_message))] \<and>
   stored (run jwt pg s0 delivered) hello_message \<and>
   pending (run jwt pg s0 store_down) 0 = Some (Awaiting_create 1 (Str ''c1'') (Str ''hi'') ''u1'') \<and>
   Messages_create pg False ''m1'' 7 (run jwt pg s0 store_down) (Str ''hi'') (Str ''c1'') ''u1''
     = Inl ConnectionError \<and>
   rooms (run jwt pg s0 store_down) (Str ''c1'') = [1, 2] \<and>
   Messages (step jwt pg (run jwt pg s0 store_down) (Create_settled 0 False ''m1'' 7)) = [] \<and>
   emitted (step jwt pg (run jwt pg s0 store_down) (Create_settled 0 False ''m1'' 7))
     = [(1, Error ''Message could notqv be sent'')]"
proof -
  have d: "distinct (map mid ([] :: message list))" by simp
  have x: "emitted (run jwt pg s0 delivered)
     = [(1, Receive_message (Some hello_message)), (2, Receive_message (Some hello_message))]"
    by (simp add: hello_message_def delivered_def example_defs handler_defs)
  have p: "pending (run jwt pg s0 store_down) 0 = Some (Awaiting_create 1 (Str ''c1'') (Str ''hi'') ''u1'')"
    by (simp add: store_down_def delivered_def example_defs handler_defs)
  have c: "Messages_create pg False ''m1'' 7 (run jwt pg s0 store_down) (Str ''hi'') (Str ''c1'') ''u1''
     = Inl ConnectionError"
    by (simp add: Messages_create_def)
  have r: "rooms (run jwt pg s0 store_down) (Str ''c1'') = [1, 2]"
    by (simp add: store_down_def delivered_def example_defs handler_defs)
  have m: "Messages (run jwt pg s0 store_down) = []"
    by (simp add: store_down_def delivered_def example_defs handler_defs)
  have e: "emitted (run jwt pg s0 store_down) = []"
    by (simp add: store_down_def delivered_def example_defs handler_defs)
  from no_broadcast_without_persistence
    [OF d, of "run jwt pg s0 delivered" jwt pg "[alice, bob]" "[general]" delivered]
  have y: "stored (run jwt pg s0 delivered) hello_message"
    using x by (simp add: s0_def)
  from no_broadcast_without_persistence
    [OF d, of "run jwt pg s0 store_down" jwt pg "[alice, bob]" "[general]" store_down False "''m1''" 7]
  have z: "Messages (step jwt pg (run jwt pg s0 store_down) (Create_settled 0 False ''m1'' 7)) = [] \<and>
     emitted (step jwt pg (run jwt pg s0 store_down) (Create_settled 0 False ''m1'' 7))
       = [(1, Error ''Message could notqv be sent'')]"
    using p c m e by (simp add: s0_def)
  show ?thesis using d x y p c r z by simp
qed

text \<open>
  C2, as amended. \<^verbatim>\<open>send_message\<close> checks nothing before it calls the store. When the
  payload itself is absent the handler throws before the call: nothing is written and
  nothing is sent, not even \<^verbatim>\<open>error\<close>. Otherwise, whatever the payload holds, the handler
  is suspended on \<^verbatim>\<open>Messages.create\<close> with the content and channel id it was given.
  Rejection happens inside the write only: absent or null content, content the database
  refuses, a channel id the database does not read as a uuid, and one whose value is the
  id of no channel make the write fail; then no row is created and the sender is sent
  \<^verbatim>\<open>error\<close>. Content the database takes (in \<open>pg\<close>, empty and blank strings too), with
  an absent or null channel id or with any spelling of the id of a channel, is stored as
  a new row.
\<close>

theorem send_message_checked_by_store_only:
  "(sockets st sid = Some user \<longrightarrow>
      step verify db st (Send_message sid None) = st\<lparr>unhandled := Suc (unhandled st)\<rparr>
    \<and> step verify db st (Send_message sid (Some d)) =
        st\<lparr>pending := (pending st)(next_task st \<mapsto>
              Awaiting_create sid (get_prop d ''channelId'') (get_prop d ''content'') (uid user)),
           next_task := Suc (next_task st)\<rparr>)
   \<and> (pending st' t = Some (Awaiting_create sid' c v u) \<and>
        (v = Undefined \<or> v = Null \<or> (\<exists>body. v = Str body \<and> text_in db body = None) \<or>
         (\<exists>k. c = Str k \<and>
            (uuid_in db k = None \<or>
             (\<exists>x. uuid_in db k = Some x \<and> x \<notin> set (map cid (Channels st')))))) \<longrightarrow>
          Messages (step verify db st' (Create_settled t up nid now)) = Messages st'
        \<and> emitted (step verify db st' (Create_settled t up nid now))
            = emitted st' @ [(sid', Error ''Message could notqv be sent'')])
   \<and> (pending st' t = Some (Awaiting_create sid' c (Str body) u) \<and> up \<and>
        text_in db body = Some kept \<and>
        nid \<notin> set (map mid (Messages st')) \<and>
        (c = Undefined \<and> channel = None \<or> c = Null \<and> channel = None \<or>
         (\<exists>k x. c = Str k \<and> uuid_in db k = Some x \<and> x \<in> set (map cid (Channels st')) \<and>
                channel = Some x)) \<and>
        u \<in> set (map uid (Users st')) \<longrightarrow>
          Messages (step verify db st' (Create_settled t up nid now))
            = Messages st' @ [\<lparr>mid = nid, content = kept, created_at = now, user_id = Some u,
                               channel_id = channel\<rparr>]
        \<and> emitted (step verify db st' (Create_settled t up nid now)) = emitted st')"
proof (intro conjI impI)
  assume "sockets st sid = Some user"
  then show "step verify db st (Send_message sid None) = st\<lparr>unhandled := Suc (unhandled st)\<rparr>"
    by (simp add: send_message_def)
next
  assume "sockets st sid = Some user"
  then show "step verify db st (Send_message sid (Some d)) =
        st\<lparr>pending := (pending st)(next_task st \<mapsto>
              Awaiting_create sid (get_prop d ''channelId'') (get_prop d ''content'') (uid user)),
           next_task := Suc (next_task st)\<rparr>"
    by (simp add: send_message_def)
next
  assume a: "pending st' t = Some (Awaiting_create sid' c v u) \<and>
        (v = Undefined \<or> v = Null \<or> (\<exists>body. v = Str body \<and> text_in db body = None) \<or>
         (\<exists>k. c = Str k \<and>
            (uuid_in db k = None \<or>
             (\<exists>x. uuid_in db k = Some x \<and> x \<notin> set (map cid (Channels st'))))))"
  then have "\<exists>err. Messages_create db up nid now st' v c u = Inl err"
    by (auto simp: Messages_create_def references_def split: jsval.splits option.splits)
  then obtain err where "Messages_create db up nid now st' v c u = Inl err" by blast
  with a have eq: "send_message_created db st' t up nid now =
     st'\<lparr>pending := (pending st')(t := None),
        emitted := emitted st' @ [(sid', Error ''Message could notqv be sent'')]\<rparr>"
    using created_rejected by blast
  show "Messages (step verify db st' (Create_settled t up nid now)) = Messages st'"
    using eq by simp
  show "emitted (step verify db st' (Create_settled t up nid now))
            = emitted st' @ [(sid', Error ''Message could notqv be sent'')]"
    using eq by simp
next
  assume a: "pending st' t = Some (Awaiting_create sid' c (Str body) u) \<and> up \<and>
        text_in db body = Some kept \<and>
        nid \<notin> set (map mid (Messages st')) \<and>
        (c = Undefined \<and> channel = None \<or> c = Null \<and> channel = None \<or>
         (\<exists>k x. c = Str k \<and> uuid_in db k = Some x \<and> x \<in> set (map cid (Channels st')) \<and>
                channel = Some x)) \<and>
        u \<in> set (map uid (Users st'))"
  then have eq: "send_message_created db st' t up nid now =
      st'\<lparr>Messages := Messages st' @ [\<lparr>mid = nid, content = kept, created_at = now, user_id = Some u,
                               channel_id = channel\<rparr>],
          pending := (pending st')(t \<mapsto> Awaiting_findByPk sid' c nid)\<rparr>"
    by (auto simp: send_message_created_def Messages_create_def references_def)
  show "Messages (step verify db st' (Create_settled t up nid now))
            = Messages st' @ [\<lparr>mid = nid, content = kept, created_at = now, user_id = Some u,
                               channel_id = channel\<rparr>]"
    using eq by simp
  show "emitted (step verify db st' (Create_settled t up nid now)) = emitted st'"
    using eq by simp
qed

theorem send_message_checked_by_store_only_witness:
  "sockets (run jwt pg s0 two_joined) 1
      = Some \<lparr>uid = ''u1'', username = ''alice'', avatar_color = ''bg-blue-600''\<rparr>
   \<and> unhandled (step jwt pg (run jwt pg s0 two_joined) (Send_message 1 None)) = 1
   \<and> emitted (step jwt pg (run jwt pg s0 two_joined) (Send_message 1 None)) = []
   \<and> pending (step jwt pg (run jwt pg s0 two_joined) (Send_message 1 (Some unknown_channel))) 0
      = Some (Awaiting_create 1 (Str ''c404'') (Str ''hi'') ''u1'')
   \<and> uuid_in pg ''c404'' = Some ''c404''
   \<and> ''c404'' \<notin> set (map cid (Channels (run jwt pg s0 (two_joined @ [Send_message 1 (Some unknown_channel)]))))
   \<and> Messages (step jwt pg (run jwt pg s0 (two_joined @ [Send_message 1 (Some unknown_channel)]))
        (Create_settled 0 True ''m1'' 7)) = []
   \<and> emitted (step jwt pg (run jwt pg s0 (two_joined @ [Send_message 1 (Some unknown_channel)]))
        (Create_settled 0 True ''m1'' 7)) = [(1, Error ''Message could notqv be sent'')]
   \<and> pending (run jwt pg s0 (two_joined @ [Send_message 1 (Some blank_other_spelling)])) 0
      = Some (Awaiting_create 1 (Str ''C1'') (Str ''   '') ''u1'')
   \<and> uuid_in pg ''C1'' = Some ''c1'' \<and> text_in pg ''   '' = Some ''   ''
   \<and> Messages (step jwt pg (run jwt pg s0 (two_joined @ [Send_message 1 (Some blank_other_spelling)]))
        (Create_settled 0 True ''m1'' 7))
      = [\<lparr>mid = ''m1'', content = ''   '', created_at = 7, user_id = Some ''u1'',
          channel_id = Some ''c1''\<rparr>]"
proof -
  let ?st = "run jwt pg s0 two_joined"
  let ?bad = "run jwt pg s0 (two_joined @ [Send_message 1 (Some unknown_channel)])"
  let ?good = "run jwt pg s0 (two_joined @ [Send_message 1 (Some blank_other_spelling)])"
  let ?alice = "\<lparr>uid = ''u1'', username = ''alice'', avatar_color = ''bg-blue-600''\<rparr>"
  have s: "sockets ?st 1 = Some ?alice"
    by (simp add: example_defs handler_defs)
  have n: "next_task ?st = 0" "pending ?st = (\<lambda>t. None)" "unhandled ?st = 0" "emitted ?st = []"
    by (simp_all add: example_defs handler_defs)
  have pb: "pending ?bad 0 = Some (Awaiting_create 1 (Str ''c404'') (Str ''hi'') ''u1'')"
    by (simp add: unknown_channel_def example_defs handler_defs)
  have cb: "uuid_in pg ''c404'' = Some ''c404''" "''c404'' \<notin> set (map cid (Channels ?bad))"
    by (simp_all add: unknown_channel_def example_defs handler_defs)
  have mb: "Messages ?bad = []" "emitted ?bad = []"
    by (simp_all add: unknown_channel_def example_defs handler_defs)
  have pg: "pending ?good 0 = Some (Awaiting_create 1 (Str ''C1'') (Str ''   '') ''u1'')"
    by (simp add: blank_other_spelling_def example_defs handler_defs)
  have g: "Messages ?good = []" "''c1'' \<in> set (map cid (Channels ?good))"
    "''u1'' \<in> set (map uid (Users ?good))"
    by (simp_all add: blank_other_spelling_def example_defs handler_defs)
  have rd: "uuid_in pg ''C1'' = Some ''c1''" "text_in pg ''   '' = Some ''   ''"
    by (simp_all add: pg_def)
  note a = send_message_checked_by_store_only
    [where st = "?st" and sid = 1 and user = "?alice" and verify = jwt and db = pg
       and d = unknown_channel and st' = "?bad" and t = 0 and sid' = 1 and c = "Str ''c404''"
       and v = "Str ''hi''" and u = "''u1''" and up = True and nid = "''m1''" and now = 7]
  note b = send_message_checked_by_store_only
    [where st = "?st" and sid = 1 and user = "?alice" and verify = jwt and db = pg
       and d = blank_other_spelling and st' = "?good" and t = 0 and sid' = 1 and c = "Str ''C1''"
       and body = "''   ''" and kept = "''   ''" and channel = "Some ''c1''"
       and u = "''u1''" and up = True and nid = "''m1''" and now = 7]
  from a have a0: "unhandled (step jwt pg ?st (Send_message 1 None)) = 1
     \<and> emitted (step jwt pg ?st (Send_message 1 None)) = []"
    using s n by simp
  from a have a1: "pending (step jwt pg ?st (Send_message 1 (Some unknown_channel))) 0
      = Some (Awaiting_create 1 (Str ''c404'') (Str ''hi'') ''u1'')"
    using s n by (simp add: unknown_channel_def get_prop_def)
  from a have a2: "Messages (step jwt pg ?bad (Create_settled 0 True ''m1'' 7)) = []
     \<and> emitted (step jwt pg ?bad (Create_settled 0 True ''m1'' 7)) = [(1, Error ''Message could notqv be sent'')]"
    using pb cb mb by simp
  from b have b2: "Messages (step jwt pg ?good (Create_settled 0 True ''m1'' 7))
      = [\<lparr>mid = ''m1'', content = ''   '', created_at = 7, user_id = Some ''u1'',
          channel_id = Some ''c1''\<rparr>]"
    using pg g rd by simp
  show ?thesis using s a0 a1 cb a2 pg rd b2 by simp
qed

text \<open>
  C2 as stated fails: blank content, empty content and a payload without a channel id
  each end with a new row in the Messages table.
\<close>

theorem blank_content_is_stored:
  "map content (Messages (run jwt pg s0
      (two_joined @ [Send_message 1 (Some blank), Create_settled 0 True ''m1'' 7]))) = [''   '']
   \<and> map content (Messages (run jwt pg s0
      (two_joined @ [Send_message 1 (Some empty_content), Create_settled 0 True ''m1'' 7]))) = [[]]
   \<and> map channel_id (Messages (run jwt pg s0
      (two_joined @ [Send_message 1 (Some no_channel), Create_settled 0 True ''m1'' 7]))) = [None]"
  by (simp add: blank_def empty_content_def no_channel_def unknown_channel_def example_defs handler_defs)

text \<open>
  C3, as amended. Nothing serialises the handlers of one channel. What holds is this: a
  \<^verbatim>\<open>receive_message\<close> for a message is sent only after that message has been written, and
  what has been sent stays in place. So if message \<open>b\<close> is not yet in the store in a state
  \<open>st\<close>, then no socket has been sent \<open>b\<close>, and whatever a socket is sent later comes
  after everything it was sent up to \<open>st\<close>: a message whose broadcast is out before
  the write of \<open>b\<close> completes is observed before \<open>b\<close> by every subscriber.
\<close>

theorem broadcast_order_without_overlap:
  assumes "distinct (map mid ms)" and "st = run verify db (start us cs ms) es"
    and "b \<notin> set (map mid (Messages st))"
  shows "Some b \<notin> set (received st r)
       \<and> (\<exists>new. received (run verify db st es') r = received st r @ new)"
proof -
  have "consistent db st" using assms(1,2) consistent_reached by simp
  then have lg: "log_ok st" by (simp add: consistent_def)
  have "\<forall>e \<in> set (emitted st). event_mid (snd e) \<noteq> Some b"
    using event_mid_stored [OF lg] assms(3) by blast
  then have a: "Some b \<notin> set (received st r)"
    by (auto simp: received_def)
  obtain new where "emitted (run verify db st es') = emitted st @ new"
    using run_emitted by blast
  from received_append [OF this] a show ?thesis by blast
qed

theorem broadcast_order_without_overlap_witness:
  "distinct (map mid []) \<and>
   ''mB'' \<notin> set (map mid (Messages (run jwt pg s0 first_delivered))) \<and>
   received (run jwt pg s0 first_delivered) 2 = [Some ''mA''] \<and>
   Some ''mB'' \<notin> set (received (run jwt pg s0 first_delivered) 2) \<and>
   received (run jwt pg (run jwt pg s0 first_delivered) second_after) 2 = [Some ''mA'', Some ''mB'']"
proof -
  have d: "distinct (map mid ([] :: message list))" by simp
  have m: "''mB'' \<notin> set (map mid (Messages (run jwt pg s0 first_delivered)))"
    by (simp add: first_delivered_def first_sent_def second_sent_def second_after_def example_defs handler_defs)
  have e: "received (run jwt pg s0 first_delivered) 2 = [Some ''mA'']"
    by (simp add: received_def first_delivered_def first_sent_def second_sent_def second_after_def example_defs handler_defs)
  have f: "received (run jwt pg (run jwt pg s0 first_delivered) second_after) 2 = [Some ''mA'', Some ''mB'']"
    by (simp add: received_def first_delivered_def first_sent_def second_sent_def second_after_def example_defs handler_defs)
  from broadcast_order_without_overlap
    [OF d _ m, of jwt pg "[alice, bob]" "[general]" first_delivered 2 second_after]
  have "Some ''mB'' \<notin> set (received (run jwt pg s0 first_delivered) 2)"
    by (simp add: s0_def)
  then show ?thesis using d m e f by simp
qed

text \<open>
  C3 as stated fails: the write of A completes before the second \<^verbatim>\<open>send_message\<close> even
  arrives, the read of B settles before the read of A, and both subscribers are sent B
  before A.
\<close>

theorem later_message_broadcast_first:
  "map mid (Messages (run jwt pg s0 first_sent)) = [''mA'']
   \<and> pending (run jwt pg s0 first_sent) 1 = None
   \<and> rooms (run jwt pg s0 (first_sent @ second_sent)) (Str ''c1'') = [1, 2]
   \<and> map mid (Messages (run jwt pg s0 (first_sent @ second_sent))) = [''mA'', ''mB'']
   \<and> received (run jwt pg s0 (first_sent @ second_sent)) 1 = [Some ''mB'', Some ''mA'']
   \<and> received (run jwt pg s0 (first_sent @ second_sent)) 2 = [Some ''mB'', Some ''mA'']"
  by (simp add: received_def first_sent_def second_sent_def second_after_def example_defs handler_defs)

text \<open>
  C4, as amended. Take a \<^verbatim>\<open>send_message\<close> with payload \<open>d\<close> on an open connection, a
  write that adds a row, and any events in between that leave the suspended handler
  alone. When the read that follows succeeds too, the message sent is that row, its
  \<^verbatim>\<open>channel_id\<close> is the value the database reads from the \<^verbatim>\<open>channelId\<close> of \<open>d\<close>, and it is
  sent to the sockets that are at that moment in the room named by that \<^verbatim>\<open>channelId\<close>
  string as \<open>d\<close> spells it: once each, the sender included if it is still there, and to
  nobody else, so not to a socket that joined the channel under another spelling of its
  id; and no later step sends it again. (When that read fails nobody is sent the
  message: see C10.)
\<close>

theorem fanout_exactly_once:
  assumes "distinct (map mid ms)" and "st = run verify db (start us cs ms) es"
    and "sockets st sid = Some user"
    and "\<forall>e \<in> set esa. \<not> settles (next_task st) e"
    and "sta = run verify db (step verify db st (Send_message sid (Some d))) esa"
    and "Messages (step verify db sta (Create_settled (next_task st) up nid now)) \<noteq> Messages sta"
    and "\<forall>e \<in> set esb. \<not> settles (next_task st) e"
    and "stb = run verify db (step verify db sta (Create_settled (next_task st) up nid now)) esb"
  shows "(\<exists>m. mid m = nid \<and> stored stb m
            \<and> foreign_key db (get_prop d ''channelId'') = Inr (channel_id m)
            \<and> emitted (step verify db stb (FindByPk_settled (next_task st) True))
                = emitted stb @
                  map (\<lambda>r. (r, Receive_message (Some m))) (rooms stb (get_prop d ''channelId'')))
       \<and> copies (run verify db (step verify db stb (FindByPk_settled (next_task st) True)) es') r nid
           = (if r \<in> set (rooms stb (get_prop d ''channelId'')) then 1 else 0)"
proof -
  let ?t = "next_task st"
  let ?c = "get_prop d ''channelId''"
  let ?tk = "Awaiting_create sid ?c (get_prop d ''content'') (uid user)"
  let ?sent = "step verify db st (Send_message sid (Some d))"
  let ?created = "step verify db sta (Create_settled ?t up nid now)"
  have c0: "consistent db st" using assms(1,2) consistent_reached by simp
  have sent: "pending ?sent ?t = Some ?tk" "?t < next_task ?sent"
    using assms(3) by (simp_all add: send_message_def)
  have p1: "pending sta ?t = Some ?tk" and n1: "?t < next_task sta"
    unfolding assms(5) using pending_kept_run [OF sent(2) assms(4), of verify db] sent(1) by simp_all
  have "consistent db ?sent" using c0 by (rule consistent_step)
  then have c1: "consistent db sta"
    unfolding assms(5) by (rule consistent_run)
  from create_settled_written [OF p1 assms(6)] obtain row
    where cr: "?created = sta\<lparr>Messages := Messages sta @ [row],
                  pending := (pending sta)(?t \<mapsto> Awaiting_findByPk sid ?c nid)\<rparr>"
    by blast
  have pc: "pending ?created ?t = Some (Awaiting_findByPk sid ?c nid)" "?t < next_task ?created"
    unfolding cr using n1 by simp_all
  have p2: "pending stb ?t = Some (Awaiting_findByPk sid ?c nid)"
    unfolding assms(8) using pending_kept_run [OF pc(2) assms(7), of verify db] pc(1) by simp
  have "consistent db ?created" using c1 by (rule consistent_step)
  then have c2: "consistent db stb"
    unfolding assms(8) by (rule consistent_run)
  from fanout_state [OF c2 p2] show ?thesis .
qed

theorem fanout_exactly_once_witness:
  "distinct (map mid []) \<and>
   sockets (run jwt pg s0 two_joined) 1
     = Some \<lparr>uid = ''u1'', username = ''alice'', avatar_color = ''bg-blue-600''\<rparr> \<and>
   next_task (run jwt pg s0 two_joined) = 0 \<and>
   rooms (run jwt pg s0 persisted) (Str ''c1'') = [1, 2] \<and>
   map channel_id (Messages (run jwt pg s0 persisted)) = [Some ''c1''] \<and>
   copies (run jwt pg (step jwt pg (run jwt pg s0 persisted) (FindByPk_settled 0 True))
      [FindByPk_settled 0 True]) 1 ''m1'' = 1 \<and>
   copies (run jwt pg (step jwt pg (run jwt pg s0 persisted) (FindByPk_settled 0 True))
      [FindByPk_settled 0 True]) 2 ''m1'' = 1 \<and>
   copies (run jwt pg (step jwt pg (run jwt pg s0 persisted) (FindByPk_settled 0 True))
      [FindByPk_settled 0 True]) 3 ''m1'' = 0 \<and>
   rooms (run jwt pg s0 persisted_other_spelling) (Str ''C1'') = [] \<and>
   rooms (run jwt pg s0 persisted_other_spelling) (Str ''c1'') = [1, 2] \<and>
   map channel_id (Messages (run jwt pg s0 persisted_other_spelling)) = [Some ''c1''] \<and>
   copies (run jwt pg (step jwt pg (run jwt pg s0 persisted_other_spelling) (FindByPk_settled 0 True))
      []) 2 ''m1'' = 0"
proof -
  let ?opened = "run jwt pg s0 two_joined"
  have d: "distinct (map mid ([] :: message list))" by simp
  have s: "sockets ?opened 1 = Some \<lparr>uid = ''u1'', username = ''alice'', avatar_color = ''bg-blue-600''\<rparr>"
    by (simp add: example_defs handler_defs)
  have n: "next_task ?opened = 0" by (simp add: example_defs handler_defs)
  have k: "\<forall>e \<in> set ([] :: event list). \<not> settles (next_task ?opened) e" by simp
  have e1: "run jwt pg (step jwt pg ?opened (Send_message 1 (Some hello))) [] = run jwt pg s0 store_sent"
    by (simp add: store_sent_def run_append)
  have e2: "run jwt pg (step jwt pg (run jwt pg s0 store_sent) (Create_settled 0 True ''m1'' 7)) []
      = run jwt pg s0 persisted"
    by (simp add: store_sent_def persisted_def run_append)
  have f1: "run jwt pg (step jwt pg ?opened (Send_message 1 (Some hello_other_spelling))) []
      = run jwt pg s0 other_sent"
    by (simp add: other_sent_def run_append)
  have f2: "run jwt pg (step jwt pg (run jwt pg s0 other_sent) (Create_settled 0 True ''m1'' 7)) []
      = run jwt pg s0 persisted_other_spelling"
    by (simp add: other_sent_def persisted_other_spelling_def run_append)
  have w1: "Messages (step jwt pg (run jwt pg s0 store_sent) (Create_settled (next_task ?opened) True ''m1'' 7))
      \<noteq> Messages (run jwt pg s0 store_sent)"
    by (simp add: store_sent_def example_defs handler_defs)
  have w2: "Messages (step jwt pg (run jwt pg s0 other_sent) (Create_settled (next_task ?opened) True ''m1'' 7))
      \<noteq> Messages (run jwt pg s0 other_sent)"
    by (simp add: other_sent_def hello_other_spelling_def example_defs handler_defs)
  have r: "rooms (run jwt pg s0 persisted) (Str ''c1'') = [1, 2]"
    "map channel_id (Messages (run jwt pg s0 persisted)) = [Some ''c1'']"
    by (simp_all add: example_defs handler_defs)
  have q: "rooms (run jwt pg s0 persisted_other_spelling) (Str ''C1'') = []"
    "rooms (run jwt pg s0 persisted_other_spelling) (Str ''c1'') = [1, 2]"
    "map channel_id (Messages (run jwt pg s0 persisted_other_spelling)) = [Some ''c1'']"
    by (simp_all add: persisted_other_spelling_def other_sent_def hello_other_spelling_def
          example_defs handler_defs)
  have g: "get_prop hello ''channelId'' = Str ''c1''"
    "get_prop hello_other_spelling ''channelId'' = Str ''C1''"
    by (simp_all add: hello_def hello_other_spelling_def get_prop_def)
  note a = fanout_exactly_once
    [where ms = "[]" and us = "[alice, bob]" and cs = "[general]" and es = two_joined
       and verify = jwt and db = pg and st = "?opened" and sid = 1 and d = hello and esa = "[]"
       and sta = "run jwt pg s0 store_sent" and up = True and nid = "''m1''" and now = 7
       and esb = "[]" and stb = "run jwt pg s0 persisted" and es' = "[FindByPk_settled 0 True]",
     OF d _ s k _ w1 k]
  note b = fanout_exactly_once
    [where ms = "[]" and us = "[alice, bob]" and cs = "[general]" and es = two_joined
       and verify = jwt and db = pg and st = "?opened" and sid = 1 and d = hello_other_spelling
       and esa = "[]" and sta = "run jwt pg s0 other_sent" and up = True and nid = "''m1''"
       and now = 7 and esb = "[]" and stb = "run jwt pg s0 persisted_other_spelling" and es' = "[]",
     OF d _ s k _ w2 k]
  from a [of 1] a [of 2] a [of 3]
  have x: "copies (run jwt pg (step jwt pg (run jwt pg s0 persisted) (FindByPk_settled 0 True))
      [FindByPk_settled 0 True]) 1 ''m1'' = 1 \<and>
   copies (run jwt pg (step jwt pg (run jwt pg s0 persisted) (FindByPk_settled 0 True))
      [FindByPk_settled 0 True]) 2 ''m1'' = 1 \<and>
   copies (run jwt pg (step jwt pg (run jwt pg s0 persisted) (FindByPk_settled 0 True))
      [FindByPk_settled 0 True]) 3 ''m1'' = 0"
    using e1 e2 n r g by (simp add: s0_def)
  from b [of 2]
  have y: "copies (run jwt pg (step jwt pg (run jwt pg s0 persisted_other_spelling) (FindByPk_settled 0 True))
      []) 2 ''m1'' = 0"
    using f1 f2 n q g by (simp add: s0_def)
  show ?thesis using d s n r x q y by simp
qed

text \<open>
  C4 as stated fails: message \<open>m1\<close> is written to channel \<open>c1\<close>, sockets 1 and 2 are in
  the room of \<open>c1\<close>, the read fails, and socket 2 is sent no copy; the handler is over.
\<close>

theorem persisted_but_never_delivered:
  "map mid (Messages (run jwt pg s0 (persisted @ [FindByPk_settled 0 False]))) = [''m1'']
   \<and> map channel_id (Messages (run jwt pg s0 (persisted @ [FindByPk_settled 0 False]))) = [Some ''c1'']
   \<and> rooms (run jwt pg s0 (persisted @ [FindByPk_settled 0 False])) (Str ''c1'') = [1, 2]
   \<and> emitted (run jwt pg s0 (persisted @ [FindByPk_settled 0 False]))
       = [(1, Error ''Message could notqv be sent'')]
   \<and> copies (run jwt pg s0 (persisted @ [FindByPk_settled 0 False])) 2 ''m1'' = 0
   \<and> pending (run jwt pg s0 (persisted @ [FindByPk_settled 0 False])) 0 = None"
  by (simp add: example_defs handler_defs copies_def)

text \<open>
  C5, as amended. \<^verbatim>\<open>join_channel\<close> does not look at the Channels table: for every
  channel id, known or not, an open connection is put in the room of that id, nothing is
  sent back and nothing fails.
\<close>

theorem join_channel_any_id:
  assumes "sockets st sid = Some user"
  shows "sid \<in> set (rooms (step verify db st (Join_channel sid c)) c)
       \<and> emitted (step verify db st (Join_channel sid c)) = emitted st
       \<and> unhandled (step verify db st (Join_channel sid c)) = unhandled st
       \<and> Messages (step verify db st (Join_channel sid c)) = Messages st"
  using assms by (simp add: join_channel_def socket_join_def)

theorem join_channel_any_id_witness:
  "sockets (run jwt pg s0 two_joined) 2
      = Some \<lparr>uid = ''u2'', username = ''bob'', avatar_color = ''bg-red-600''\<rparr>
   \<and> ''c404'' \<notin> set (map cid (Channels (run jwt pg s0 two_joined)))
   \<and> 2 \<in> set (rooms (step jwt pg (run jwt pg s0 two_joined) (Join_channel 2 (Str ''c404''))) (Str ''c404''))
   \<and> emitted (step jwt pg (run jwt pg s0 two_joined) (Join_channel 2 (Str ''c404''))) = []"
proof -
  have s: "sockets (run jwt pg s0 two_joined) 2
      = Some \<lparr>uid = ''u2'', username = ''bob'', avatar_color = ''bg-red-600''\<rparr>"
    by (simp add: example_defs handler_defs)
  have c: "''c404'' \<notin> set (map cid (Channels (run jwt pg s0 two_joined)))"
    by (simp add: example_defs handler_defs)
  have e: "emitted (run jwt pg s0 two_joined) = []"
    by (simp add: example_defs handler_defs)
  from join_channel_any_id [OF s, of jwt pg "Str ''c404''"]
  show ?thesis using s c e by simp
qed

text \<open>
  C5 as stated fails: no channel has the id \<open>c404\<close>, and the connection that joins it is
  in its room afterwards, with no error sent.
\<close>

theorem join_unknown_channel_succeeds:
  "''c404'' \<notin> set (map cid (Channels (run jwt pg s0 [Connect 1 (Some ''tokA'') True])))
   \<and> rooms (run jwt pg s0 [Connect 1 (Some ''tokA'') True]) (Str ''c404'') = []
   \<and> rooms (run jwt pg s0 [Connect 1 (Some ''tokA'') True, Join_channel 1 (Str ''c404'')]) (Str ''c404'') = [1]
   \<and> emitted (run jwt pg s0 [Connect 1 (Some ''tokA'') True, Join_channel 1 (Str ''c404'')]) = []"
  by (simp add: example_defs handler_defs)

text \<open>
  C6. Joining is idempotent: a second \<^verbatim>\<open>join_channel\<close> for the same channel on the same
  connection changes nothing, the connection is in the room exactly once, and no error is
  raised (nothing is sent, no promise rejects).
\<close>

theorem join_channel_idempotent:
  assumes "distinct (map mid ms)"
    and "st = run verify db (start us cs ms) es"
    and "sockets st sid = Some user"
  shows "step verify db (step verify db st (Join_channel sid c)) (Join_channel sid c)
           = step verify db st (Join_channel sid c)
       \<and> count_list (rooms (step verify db st (Join_channel sid c)) c) sid = 1
       \<and> emitted (step verify db st (Join_channel sid c)) = emitted st
       \<and> unhandled (step verify db st (Join_channel sid c)) = unhandled st"
proof -
  have "consistent db st" using assms(1,2) consistent_reached by simp
  then have d: "distinct (rooms st c)" unfolding consistent_def rooms_ok_def by blast
  show ?thesis using assms(3) count_list_distinct [OF d, of sid]
    by (auto simp: join_channel_def socket_join_def)
qed

theorem join_channel_idempotent_witness:
  "distinct (map mid []) \<and>
   sockets (run jwt pg s0 two_joined) 1
     = Some \<lparr>uid = ''u1'', username = ''alice'', avatar_color = ''bg-blue-600''\<rparr> \<and>
   rooms (step jwt pg (run jwt pg s0 two_joined) (Join_channel 1 (Str ''c1''))) (Str ''c1'') = [1, 2] \<and>
   count_list (rooms (step jwt pg (run jwt pg s0 two_joined) (Join_channel 1 (Str ''c1''))) (Str ''c1'')) 1 = 1 \<and>
   emitted (step jwt pg (run jwt pg s0 two_joined) (Join_channel 1 (Str ''c1''))) = []"
proof -
  have a: "sockets (run jwt pg s0 two_joined) 1
     = Some \<lparr>uid = ''u1'', username = ''alice'', avatar_color = ''bg-blue-600''\<rparr>"
    by (simp add: example_defs handler_defs)
  have b: "rooms (step jwt pg (run jwt pg s0 two_joined) (Join_channel 1 (Str ''c1''))) (Str ''c1'') = [1, 2]"
    by (simp add: example_defs handler_defs)
  have c: "emitted (run jwt pg s0 two_joined) = []"
    by (simp add: example_defs handler_defs)
  have d: "distinct (map mid ([] :: message list))" by simp
  from join_channel_idempotent [OF d _ a, of jwt pg "[alice, bob]" "[general]" two_joined "Str ''c1''"]
  show ?thesis using a b c d by (simp add: s0_def)
qed

text \<open>
  C7. A handshake whose token is missing, empty, rejected by \<^verbatim>\<open>jwt.verify\<close> (malformed,
  forged, expired) or names no user is refused by the middleware, with the error
  \<^verbatim>\<open>Authentication error\<close> or \<^verbatim>\<open>User not found\<close>, and changes nothing: the socket has no
  user attached, is in no room, and its \<^verbatim>\<open>join_channel\<close> and \<^verbatim>\<open>send_message\<close> events
  have no effect. (The same holds when the user table cannot be read.)
\<close>

theorem refused_handshake_leaves_nothing:
  assumes "distinct (map mid ms)" and "st = run verify db (start us cs ms) es"
    and "sockets st sid = None"
    and "token = None \<or> token = Some [] \<or>
         (\<exists>tk. token = Some tk \<and>
            (verify tk = None \<or>
             (\<exists>k. verify tk = Some k \<and> (\<not> up \<or> k \<notin> set (map uid (Users st))))))"
  shows "(auth_middleware verify up st token = Inl ''Authentication error'' \<or>
          auth_middleware verify up st token = Inl ''User not found'')
       \<and> (auth_middleware verify up st token = Inl ''User not found'') =
           (\<exists>tk k. token = Some tk \<and> tk \<noteq> [] \<and> verify tk = Some k \<and> up)
       \<and> step verify db st (Connect sid token up) = st
       \<and> (\<forall>room. sid \<notin> set (rooms st room))
       \<and> step verify db st (Join_channel sid c) = st
       \<and> step verify db st (Send_message sid d) = st"
proof -
  have "consistent db st" using assms(1,2) consistent_reached by simp
  then have "rooms_ok st" by (simp add: consistent_def)
  with assms(3) have r: "\<forall>room. sid \<notin> set (rooms st room)"
    unfolding rooms_ok_def by blast
  have nf: "\<And>k. k \<notin> set (map uid (Users st)) \<Longrightarrow> find (\<lambda>u. uid u = k) (Users st) = None"
    by (auto simp: find_None_iff)
  have a: "auth_middleware verify up st token = Inl ''Authentication error'' \<or>
          auth_middleware verify up st token = Inl ''User not found''"
    using assms(4) nf
    by (auto simp: auth_middleware_def Users_findByPk_def split: option.splits sum.splits)
  have b: "(auth_middleware verify up st token = Inl ''User not found'') =
           (\<exists>tk k. token = Some tk \<and> tk \<noteq> [] \<and> verify tk = Some k \<and> up)"
    using assms(4) nf
    by (auto simp: auth_middleware_def Users_findByPk_def split: option.splits sum.splits)
  from a have "step verify db st (Connect sid token up) = st"
    using assms(3) by (auto simp: connection_def)
  with a b r assms(3) show ?thesis by simp
qed

theorem refused_handshake_leaves_nothing_witness:
  "distinct (map mid []) \<and> sockets (run jwt pg s0 two_joined) 3 = None
   \<and> jwt ''tokC'' = Some ''u9'' \<and> ''u9'' \<notin> set (map uid (Users (run jwt pg s0 two_joined)))
   \<and> auth_middleware jwt True (run jwt pg s0 two_joined) (Some ''tokC'') = Inl ''User not found''
   \<and> jwt ''expired'' = None
   \<and> auth_middleware jwt True (run jwt pg s0 two_joined) (Some ''expired'') = Inl ''Authentication error''
   \<and> step jwt pg (run jwt pg s0 two_joined) (Connect 3 (Some ''tokC'') True) = run jwt pg s0 two_joined
   \<and> step jwt pg (run jwt pg s0 two_joined) (Connect 3 (Some ''expired'') True) = run jwt pg s0 two_joined
   \<and> step jwt pg (run jwt pg s0 two_joined) (Join_channel 3 (Str ''c1'')) = run jwt pg s0 two_joined
   \<and> step jwt pg (run jwt pg s0 two_joined) (Send_message 3 (Some hello)) = run jwt pg s0 two_joined"
proof -
  have d: "distinct (map mid ([] :: message list))" by simp
  have s: "sockets (run jwt pg s0 two_joined) 3 = None"
    by (simp add: example_defs handler_defs)
  have u: "jwt ''tokC'' = Some ''u9''" "''u9'' \<notin> set (map uid (Users (run jwt pg s0 two_joined)))"
    "jwt ''expired'' = None"
    by (simp_all add: example_defs handler_defs)
  have a: "auth_middleware jwt True (run jwt pg s0 two_joined) (Some ''tokC'') = Inl ''User not found''"
    "auth_middleware jwt True (run jwt pg s0 two_joined) (Some ''expired'') = Inl ''Authentication error''"
    by (simp_all add: example_defs handler_defs)
  note w = refused_handshake_leaves_nothing [OF d _ s, of jwt pg "[alice, bob]" "[general]" two_joined]
  from w [of "Some ''tokC''" True "Str ''c1''" "Some hello"]
       w [of "Some ''expired''" True "Str ''c1''" "Some hello"]
  show ?thesis using d s u a by (simp add: s0_def)
qed

text \<open>
  C8. The \<^verbatim>\<open>user_id\<close> of a stored message is the id of the user the middleware attached
  to the connection at the handshake. Take a handshake that succeeds with \<open>user\<close>, any
  events after it that do not close the connection, a \<^verbatim>\<open>send_message\<close> with any payload
  \<open>d\<close> at all, any events that leave the suspended handler alone, and then the write: if
  it adds a row, that row has \<open>user_id = uid user\<close>, whatever fields \<open>d\<close> holds.
\<close>

theorem sender_taken_from_socket:
  assumes fresh: "sockets st sid = None"
    and auth: "auth_middleware verify up0 st token = Inr user"
    and open1: "Disconnect sid \<notin> set es1"
    and st1: "st1 = run verify db (step verify db st (Connect sid token up0)) es1"
    and kept: "\<forall>e \<in> set es2. \<not> settles (next_task st1) e"
    and st2: "st2 = run verify db (step verify db st1 (Send_message sid (Some d))) es2"
    and written: "Messages (step verify db st2 (Create_settled (next_task st1) up nid now)) \<noteq> Messages st2"
  shows "\<exists>row. Messages (step verify db st2 (Create_settled (next_task st1) up nid now)) = Messages st2 @ [row]
           \<and> mid row = nid \<and> user_id row = Some (uid user)"
proof -
  have "sockets (step verify db st (Connect sid token up0)) sid = Some user"
    using fresh auth by (simp add: connection_def)
  then have s1: "sockets st1 sid = Some user"
    unfolding st1 using open1 by (rule socket_kept_run)
  let ?t = "next_task st1"
  let ?tk = "Awaiting_create sid (get_prop d ''channelId'') (get_prop d ''content'') (uid user)"
  let ?sent = "step verify db st1 (Send_message sid (Some d))"
  have sent: "pending ?sent ?t = Some ?tk" "?t < next_task ?sent"
    using s1 by (simp_all add: send_message_def)
  have p: "pending st2 ?t = Some ?tk"
    unfolding st2 using pending_kept_run [OF sent(2) kept, of verify db] sent(1) by simp
  from create_settled_written [OF p written] obtain row
    where "step verify db st2 (Create_settled ?t up nid now)
           = st2\<lparr>Messages := Messages st2 @ [row],
                pending := (pending st2)(?t \<mapsto>
                  Awaiting_findByPk sid (get_prop d ''channelId'') nid)\<rparr>"
      and "mid row = nid" and "user_id row = Some (uid user)"
    by blast
  then show ?thesis by (intro exI [of _ row]) simp
qed

theorem sender_taken_from_socket_witness:
  "sockets s0 1 = None
   \<and> auth_middleware jwt True s0 (Some ''tokA'')
       = Inr \<lparr>uid = ''u1'', username = ''alice'', avatar_color = ''bg-blue-600''\<rparr>
   \<and> get_prop forged ''user_id'' = Str ''u2''
   \<and> Messages (run jwt pg s0 [Connect 1 (Some ''tokA'') True, Join_channel 1 (Str ''c1''),
        Send_message 1 (Some forged), Connect 2 (Some ''tokB'') True, Create_settled 0 True ''m1'' 7])
      = [\<lparr>mid = ''m1'', content = ''hi'', created_at = 7, user_id = Some ''u1'', channel_id = Some ''c1''\<rparr>]"
proof -
  let ?st1 = "run jwt pg (step jwt pg s0 (Connect 1 (Some ''tokA'') True)) [Join_channel 1 (Str ''c1'')]"
  let ?st2 = "run jwt pg (step jwt pg ?st1 (Send_message 1 (Some forged))) [Connect 2 (Some ''tokB'') True]"
  have f: "sockets s0 1 = None" by (simp add: example_defs)
  have a: "auth_middleware jwt True s0 (Some ''tokA'')
       = Inr \<lparr>uid = ''u1'', username = ''alice'', avatar_color = ''bg-blue-600''\<rparr>"
    by (simp add: forged_def example_defs handler_defs)
  have g: "get_prop forged ''user_id'' = Str ''u2''" by (simp add: forged_def get_prop_def)
  have o: "Disconnect 1 \<notin> set [Join_channel 1 (Str ''c1'')]" by simp
  have n: "next_task ?st1 = 0" by (simp add: forged_def example_defs handler_defs)
  have k: "\<forall>e \<in> set [Connect 2 (Some ''tokB'') True]. \<not> settles (next_task ?st1) e" by simp
  have m: "Messages ?st2 = []" by (simp add: forged_def example_defs handler_defs)
  have w: "Messages (step jwt pg ?st2 (Create_settled 0 True ''m1'' 7))
      = [\<lparr>mid = ''m1'', content = ''hi'', created_at = 7, user_id = Some ''u1'', channel_id = Some ''c1''\<rparr>]"
    by (simp add: forged_def example_defs handler_defs)
  have w': "Messages (step jwt pg ?st2 (Create_settled (next_task ?st1) True ''m1'' 7)) \<noteq> Messages ?st2"
    using w m n by simp
  from sender_taken_from_socket [OF f a o refl k refl w']
  have "\<exists>row. Messages (step jwt pg ?st2 (Create_settled (next_task ?st1) True ''m1'' 7)) = Messages ?st2 @ [row]
           \<and> mid row = ''m1'' \<and> user_id row = Some ''u1''" by simp
  then show ?thesis using f a g w by simp
qed

text \<open>
  C9. In every state the process can reach, a room holds open connections only. When a
  connection closes it is taken out of every room in that same step (by socket.io, before
  the \<^verbatim>\<open>disconnect\<close> handler, which only logs), and from then on, as long as its socket id
  is not used for a new handshake, it is in no room and no \<^verbatim>\<open>receive_message\<close> is sent
  to it.
\<close>

theorem closed_connection_in_no_room:
  assumes "distinct (map mid ms)" and "st = run verify db (start us cs ms) es"
    and "sockets st sid = Some user"
    and "\<forall>e \<in> set es'. \<not> connects sid e"
  shows "(\<forall>room r. r \<in> set (rooms st room) \<longrightarrow> sockets st r \<noteq> None)
       \<and> (\<forall>room. sid \<notin> set (rooms (step verify db st (Disconnect sid)) room))
       \<and> (\<forall>room. sid \<notin> set (rooms (run verify db (step verify db st (Disconnect sid)) es') room))
       \<and> (\<exists>new. emitted (run verify db (step verify db st (Disconnect sid)) es')
                   = emitted (step verify db st (Disconnect sid)) @ new
                 \<and> (\<forall>p. (sid, Receive_message p) \<notin> set new))"
proof -
  have "consistent db st" using assms(1,2) consistent_reached by simp
  then have a: "\<forall>room r. r \<in> set (rooms st room) \<longrightarrow> sockets st r \<noteq> None"
    unfolding consistent_def rooms_ok_def by blast
  let ?closed = "step verify db st (Disconnect sid)"
  have s: "sockets ?closed sid = None" and r: "\<forall>room. sid \<notin> set (rooms ?closed room)"
    using assms(3) by (simp_all add: disconnect_def leaveAll_def)
  from closed_run [OF s r assms(4), of verify db] a r show ?thesis by blast
qed

theorem closed_connection_in_no_room_witness:
  "distinct (map mid [])
   \<and> sockets (run jwt pg s0 two_joined) 1
       = Some \<lparr>uid = ''u1'', username = ''alice'', avatar_color = ''bg-blue-600''\<rparr>
   \<and> rooms (run jwt pg s0 two_joined) (Str ''c1'') = [1, 2]
   \<and> rooms (step jwt pg (run jwt pg s0 two_joined) (Disconnect 1)) (Str ''c1'') = [2]
   \<and> 1 \<notin> set (rooms (run jwt pg (step jwt pg (run jwt pg s0 two_joined) (Disconnect 1)) after_close) (Str ''c1''))
   \<and> received (run jwt pg (step jwt pg (run jwt pg s0 two_joined) (Disconnect 1)) after_close) 2 = [Some ''m1'']
   \<and> received (run jwt pg (step jwt pg (run jwt pg s0 two_joined) (Disconnect 1)) after_close) 1 = []"
proof -
  have d: "distinct (map mid ([] :: message list))" by simp
  have s: "sockets (run jwt pg s0 two_joined) 1
       = Some \<lparr>uid = ''u1'', username = ''alice'', avatar_color = ''bg-blue-600''\<rparr>"
    by (simp add: after_close_def example_defs handler_defs)
  have r: "rooms (run jwt pg s0 two_joined) (Str ''c1'') = [1, 2]"
    "rooms (step jwt pg (run jwt pg s0 two_joined) (Disconnect 1)) (Str ''c1'') = [2]"
    by (simp_all add: after_close_def example_defs handler_defs)
  have e: "received (run jwt pg (step jwt pg (run jwt pg s0 two_joined) (Disconnect 1)) after_close) 2 = [Some ''m1'']"
    "received (run jwt pg (step jwt pg (run jwt pg s0 two_joined) (Disconnect 1)) after_close) 1 = []"
    by (simp_all add: received_def after_close_def example_defs handler_defs)
  have c: "\<forall>e \<in> set after_close. \<not> connects 1 e" by (simp add: after_close_def)
  from closed_connection_in_no_room [OF d _ s c, of jwt pg "[alice, bob]" "[general]" two_joined]
  have "1 \<notin> set (rooms (run jwt pg (step jwt pg (run jwt pg s0 two_joined) (Disconnect 1)) after_close) (Str ''c1''))"
    by (simp add: s0_def)
  then show ?thesis using d s r e by simp
qed

text \<open>
  C10. The broadcast waits for a second call to the store. When \<^verbatim>\<open>Messages.create\<close> has
  succeeded and the \<^verbatim>\<open>Messages.findByPk\<close> that follows fails, the sender is sent \<^verbatim>\<open>error\<close>,
  the message stays in the store, and no socket is ever sent a \<^verbatim>\<open>receive_message\<close> for
  it, whatever happens afterwards.
\<close>

theorem failed_read_after_write:
  assumes "distinct (map mid ms)" and "st = run verify db (start us cs ms) es"
    and "pending st t = Some (Awaiting_findByPk sid c k)"
  shows "emitted (step verify db st (FindByPk_settled t False))
           = emitted st @ [(sid, Error ''Message could notqv be sent'')]
       \<and> k \<in> set (map mid (Messages (run verify db (step verify db st (FindByPk_settled t False)) es')))
       \<and> copies (run verify db (step verify db st (FindByPk_settled t False)) es') r k = 0"
proof -
  have c: "consistent db st" using assms(1,2) consistent_reached by simp
  have s: "k \<in> set (map mid (Messages (step verify db st (FindByPk_settled t False))))"
    "\<forall>t' sid' c'. pending (step verify db st (FindByPk_settled t False)) t' \<noteq> Some (Awaiting_findByPk sid' c' k)"
    "copies st r k = 0"
    using settled_after_fetch [OF c assms(3)] by blast+
  have "copies (step verify db st (FindByPk_settled t False)) r k = copies st r k"
    using fetched_rejected [OF assms(3)] by (simp add: copies_def)
  with s(3) have z: "copies (step verify db st (FindByPk_settled t False)) r k = 0" by simp
  from quiet_run [OF s(1) s(2), of verify db es' r] z
  show ?thesis using fetched_rejected [OF assms(3)] by simp
qed

theorem failed_read_after_write_witness:
  "distinct (map mid []) \<and>
   pending (run jwt pg s0 persisted) 0 = Some (Awaiting_findByPk 1 (Str ''c1'') ''m1'') \<and>
   rooms (run jwt pg s0 persisted) (Str ''c1'') = [1, 2] \<and>
   emitted (step jwt pg (run jwt pg s0 persisted) (FindByPk_settled 0 False))
     = [(1, Error ''Message could notqv be sent'')] \<and>
   ''m1'' \<in> set (map mid (Messages (run jwt pg (step jwt pg (run jwt pg s0 persisted) (FindByPk_settled 0 False))
        [FindByPk_settled 0 True]))) \<and>
   copies (run jwt pg (step jwt pg (run jwt pg s0 persisted) (FindByPk_settled 0 False))
        [FindByPk_settled 0 True]) 2 ''m1'' = 0"
proof -
  have d: "distinct (map mid ([] :: message list))" by simp
  have p: "pending (run jwt pg s0 persisted) 0 = Some (Awaiting_findByPk 1 (Str ''c1'') ''m1'')"
    by (simp add: example_defs handler_defs)
  have r: "rooms (run jwt pg s0 persisted) (Str ''c1'') = [1, 2]"
    by (simp add: example_defs handler_defs)
  have e: "emitted (run jwt pg s0 persisted) = []"
    by (simp add: example_defs handler_defs)
  from failed_read_after_write
    [OF d _ p, of jwt pg "[alice, bob]" "[general]" persisted "[FindByPk_settled 0 True]" 2]
  show ?thesis using d p r e by (simp add: s0_def)
qed

end
